theory Spec2Isabelle
  imports Complex_Main
begin

section \<open>Python values and exceptions\<close>

text \<open>
  The solvers of \<^verbatim>\<open>src/solvers.py\<close> are Python classes over numpy and torch. Floating
  point numbers are modelled by real and complex numbers; a square root of a negative
  number, which numpy and torch answer with \<^verbatim>\<open>nan\<close>, is the value \<open>NaN\<close> below.
  Every exception the source can raise is a value of \<open>error\<close>, and a method that can
  raise returns \<open>error + 'a\<close>.
\<close>

datatype error =
    ValueError string
  | TypeError
  | IndexError
  | ZeroDivisionError
  | AssertionError
  | AttributeError string
  | RuntimeError
  | LinAlgError

definition andthen :: "error + 'a \<Rightarrow> ('a \<Rightarrow> error + 'b) \<Rightarrow> error + 'b" where
  "andthen m g = (case m of Inl e \<Rightarrow> Inl e | Inr v \<Rightarrow> g v)"

text \<open>The message of an \<^verbatim>\<open>AttributeError\<close>, with the quotes Python prints.\<close>

definition no_attribute :: "string \<Rightarrow> string \<Rightarrow> string" where
  "no_attribute ty attr =
     [CHR 0x27] @ ty @ [CHR 0x27] @ '' object has no attribute '' @ [CHR 0x27] @ attr @ [CHR 0x27]"

text \<open>Python subscripting \<^verbatim>\<open>xs[i]\<close>: a negative index counts from the end.\<close>

definition getitem :: "'a list \<Rightarrow> int \<Rightarrow> error + 'a" where
  "getitem xs i =
     (if 0 \<le> i \<and> i < int (length xs) then Inr (xs ! nat i)
      else if i < 0 \<and> - int (length xs) \<le> i then Inr (xs ! nat (int (length xs) + i))
      else Inl IndexError)"

text \<open>
  \<^verbatim>\<open>np.sum(ys * ws)\<close> for two one-dimensional arrays: the product is taken entry by
  entry; an array of length one is broadcast; any other pair of lengths raises.
\<close>

definition sum_product :: "real list \<Rightarrow> real list \<Rightarrow> error + real" where
  "sum_product ys ws =
     (if length ys = length ws then Inr (sum_list (map2 (\<lambda>y w. y * w) ys ws))
      else if length ys = 1 then Inr (sum_list (map (\<lambda>w. hd ys * w) ws))
      else if length ws = 1 then Inr (sum_list (map (\<lambda>y. y * hd ws) ys))
      else Inl (ValueError ''operands could not be broadcast together''))"

datatype pyfloat = NaN | Float real

definition np_sqrt :: "real \<Rightarrow> pyfloat" where
  "np_sqrt v = (if v < 0 then NaN else Float (sqrt v))"

fun fadd :: "pyfloat \<Rightarrow> pyfloat \<Rightarrow> pyfloat" where
  "fadd (Float u) (Float v) = Float (u + v)"
| "fadd _ _ = NaN"

text \<open>The source term \<^verbatim>\<open>f\<close> is a number or a callable (\<^verbatim>\<open>Union[Callable, float]\<close>).\<close>

datatype source_term = Coefficient real | Callable "real \<Rightarrow> real"

section \<open>The finite element solver\<close>

text \<open>
  The basis functions and their integrals come from \<^verbatim>\<open>testfuncs.Finite_Elements\<close>, the
  quadrature nodes and weights from \<^verbatim>\<open>quadrature_rules\<close>; neither is part of the
  source, so both are parameters of the constructor. A basis function is callable and
  has \<^verbatim>\<open>deriv(order)\<close>.
\<close>

record basis =
  bas_eval :: "real \<Rightarrow> real"
  bas_deriv :: "nat \<Rightarrow> real \<Rightarrow> real"

record finite_elements =
  fe_call :: "basis list"
  intphi :: "int \<Rightarrow> int \<Rightarrow> real"
  intphi_x :: "int \<Rightarrow> int \<Rightarrow> real"

text \<open>
  The attributes of \<^verbatim>\<open>FEM_HelmholtzImpedance\<close>. \<^verbatim>\<open>sol\<close> and \<^verbatim>\<open>der\<close> are \<^verbatim>\<open>None\<close> until
  \<^verbatim>\<open>solve\<close> sets them to closures over the instance; the field \<open>fem_sol\<close> records
  whether they are set, and the functions \<open>sol\<close> and \<open>der\<close> below are the closures.
\<close>

record fem =
  fem_source :: string
  fem_f :: source_term
  fem_k :: real
  fem_a :: real
  fem_b :: real
  fem_ga :: complex
  fem_gb :: complex
  fem_N :: nat
  fem_h :: real
  fem_FE :: finite_elements
  fem_bases :: "basis list"
  fem_N_quad :: nat
  fem_x :: "real list"
  fem_A :: "complex list list"
  fem_d :: "complex list"
  fem_c :: "complex list option"
  fem_sol :: bool
  fem_roots :: "real list"
  fem_weights :: "real list"

text \<open>
  \<^verbatim>\<open>__init__\<close>. \<^verbatim>\<open>(b - a) / N\<close> raises for \<^verbatim>\<open>N = 0\<close>. \<^verbatim>\<open>not N_quad\<close> holds for
  \<^verbatim>\<open>None\<close> and for \<^verbatim>\<open>0\<close>.
\<close>

definition fem_init ::
  "(nat \<Rightarrow> real \<Rightarrow> real \<Rightarrow> finite_elements) \<Rightarrow> (nat \<Rightarrow> real \<Rightarrow> real \<Rightarrow> real list \<times> real list) \<Rightarrow>
   source_term \<Rightarrow> real \<Rightarrow> real \<Rightarrow> real \<Rightarrow> complex \<Rightarrow> complex \<Rightarrow> string \<Rightarrow> nat \<Rightarrow> nat option \<Rightarrow>
   error + fem" where
  "fem_init Finite_Elements quadrature f k a b ga gb source N N_quad =
     (if N = 0 then Inl ZeroDivisionError
      else
        let FE = Finite_Elements N a b;
            nq = (if N_quad = None \<or> N_quad = Some 0
                  then (if N * 10 > 1000 then 1000 else N * 10)
                  else the N_quad);
            rw = quadrature nq a b
        in Inr \<lparr> fem_source = source, fem_f = f, fem_k = k, fem_a = a, fem_b = b,
                 fem_ga = ga, fem_gb = gb, fem_N = N, fem_h = (b - a) / real N,
                 fem_FE = FE, fem_bases = fe_call FE, fem_N_quad = nq,
                 fem_x = map (\<lambda>i. a + real i * ((b - a) / real N)) [0..<N + 1],
                 fem_A = replicate (N + 1) (replicate (N + 1) 0),
                 fem_d = replicate (N + 1) 0,
                 fem_c = None, fem_sol = False,
                 fem_roots = fst rw, fem_weights = snd rw \<rparr>)"

text \<open>\<^verbatim>\<open>intg\<close>: \<^verbatim>\<open>(b - a) * np.sum(func(roots) * weights) / 2\<close>.\<close>

definition intg :: "fem \<Rightarrow> (real \<Rightarrow> real) \<Rightarrow> error + real" where
  "intg s func =
     andthen (sum_product (map func (fem_roots s)) (fem_weights s)) (\<lambda>t.
       Inr ((fem_b s - fem_a s) * t / 2))"

definition lhs :: "fem \<Rightarrow> int \<Rightarrow> int \<Rightarrow> error + complex" where
  "lhs s i j =
     andthen (getitem (fem_bases s) i) (\<lambda>phi_i.
     andthen (getitem (fem_bases s) j) (\<lambda>phi_j.
       Inr (of_real (intphi_x (fem_FE s) i j)
            - of_real ((fem_k s)\<^sup>2 * intphi (fem_FE s) i j)
            - \<i> * of_real (fem_k s)
                * of_real (bas_eval phi_i (fem_a s) * bas_eval phi_j (fem_a s)
                           + bas_eval phi_i (fem_b s) * bas_eval phi_j (fem_b s)))))"

text \<open>
  \<^verbatim>\<open>rhs\<close>. The basis function is looked up first; then the source type selects the
  integral. A callable \<^verbatim>\<open>f\<close> with source \<^verbatim>\<open>'const'\<close> cannot be multiplied by \<^verbatim>\<open>h\<close>, and
  a number with source \<^verbatim>\<open>'func'\<close> cannot be called: both are a \<^verbatim>\<open>TypeError\<close>.
\<close>

definition rhs :: "fem \<Rightarrow> int \<Rightarrow> error + complex" where
  "rhs s j =
     andthen (getitem (fem_bases s) j) (\<lambda>phi_j.
     andthen
       (if fem_source s = ''const'' then
          (case fem_f s of
             Coefficient c \<Rightarrow>
               (let intfv = c * fem_h s
                in Inr (if j = 0 \<or> j = int (fem_N s) then intfv / 2 else intfv))
           | Callable g \<Rightarrow> Inl TypeError)
        else if fem_source s = ''func'' then
          (case fem_f s of
             Callable g \<Rightarrow> intg s (\<lambda>x. g x * bas_eval phi_j x)
           | Coefficient c \<Rightarrow> Inl TypeError)
        else Inl (ValueError (fem_source s @ '' is not a valid source type.'')))
       (\<lambda>intfv.
          Inr (of_real intfv + fem_ga s * of_real (bas_eval phi_j (fem_a s))
               + fem_gb s * of_real (bas_eval phi_j (fem_b s)))))"

text \<open>
  \<^verbatim>\<open>solve\<close>. \<open>setA\<close> is the assignment \<^verbatim>\<open>self.A[i, j] = v\<close>; the loop body is
  \<open>solve_step\<close>, run for \<^verbatim>\<open>i in range(self.N + 1)\<close>, so every index it writes is inside
  the arrays the constructor allocated. \<^verbatim>\<open>np.linalg.solve\<close> is a parameter.
\<close>

definition setA :: "fem \<Rightarrow> nat \<Rightarrow> nat \<Rightarrow> complex \<Rightarrow> fem" where
  "setA s i j v = s\<lparr>fem_A := (fem_A s)[i := (fem_A s ! i)[j := v]]\<rparr>"

definition solve_step :: "fem \<Rightarrow> nat \<Rightarrow> error + fem" where
  "solve_step s i =
     andthen (rhs s (int i)) (\<lambda>r.
     let s1 = s\<lparr>fem_d := (fem_d s)[i := r]\<rparr> in
     andthen (lhs s1 (int i) (int i)) (\<lambda>v.
     let s2 = setA s1 i i v in
     andthen (if i \<noteq> 0
              then andthen (lhs s2 (int i) (int i - 1)) (\<lambda>v. Inr (setA s2 i (i - 1) v))
              else Inr s2) (\<lambda>s3.
     if i \<noteq> fem_N s3
     then andthen (lhs s3 (int i) (int i + 1)) (\<lambda>v. Inr (setA s3 i (i + 1) v))
     else Inr s3)))"

fun solve_loop :: "fem \<Rightarrow> nat list \<Rightarrow> error + fem" where
  "solve_loop s [] = Inr s"
| "solve_loop s (i # rest) =
     (case solve_step s i of Inl e \<Rightarrow> Inl e | Inr s' \<Rightarrow> solve_loop s' rest)"

definition solve ::
  "(complex list list \<Rightarrow> complex list \<Rightarrow> error + complex list) \<Rightarrow> fem \<Rightarrow> error + fem" where
  "solve linalg_solve s =
     andthen (solve_loop s [0..<fem_N s + 1]) (\<lambda>s'.
     andthen (linalg_solve (fem_A s') (fem_d s')) (\<lambda>c.
       Inr (s'\<lparr>fem_c := Some c, fem_sol := True\<rparr>)))"

text \<open>The closures \<^verbatim>\<open>self.sol\<close> and \<^verbatim>\<open>self.der\<close>, evaluated at one point.\<close>

definition sol :: "fem \<Rightarrow> real \<Rightarrow> complex" where
  "sol s x = sum_list (map (\<lambda>i. the (fem_c s) ! i * of_real (bas_eval (fem_bases s ! i) x))
                        [0..<fem_N s + 1])"

definition der :: "fem \<Rightarrow> real \<Rightarrow> complex" where
  "der s x = sum_list (map (\<lambda>i. the (fem_c s) ! i * of_real (bas_deriv (fem_bases s ! i) 1 x))
                        [0..<fem_N s + 1])"

text \<open>
  \<^verbatim>\<open>H1_error\<close> and \<^verbatim>\<open>__call__\<close> (here \<open>fem_call\<close>) return their value and the lines they
  print. A bare \<^verbatim>\<open>return\<close> is the value \<open>None\<close>.
\<close>

definition solve_first :: string where
  "solve_first = ''Call FEM_HelmholtzImpedance.solve() to find the FEM solution first.''"

definition H1_error ::
  "fem \<Rightarrow> (real \<Rightarrow> complex) \<Rightarrow> (real \<Rightarrow> complex) \<Rightarrow>
   (error + (pyfloat \<times> pyfloat \<times> pyfloat) option) \<times> string list" where
  "H1_error s u u_x =
     (if \<not> fem_sol s then (Inr None, [solve_first])
      else
        let u2 = (\<lambda>x. (cmod (u x - sol s x))\<^sup>2);
            ux2 = (\<lambda>x. (cmod (u_x x - der s x))\<^sup>2)
        in (andthen (intg s u2) (\<lambda>iu.
            let err_u = np_sqrt iu in
            andthen (intg s ux2) (\<lambda>iux.
            let err_u_x = np_sqrt iux in
            Inr (Some (fadd err_u err_u_x, err_u, err_u_x)))), []))"

definition fem_call :: "fem \<Rightarrow> real \<Rightarrow> (complex \<times> complex) option \<times> string list" where
  "fem_call s x =
     (if \<not> fem_sol s then (None, [solve_first])
      else (Some (sol s x, der s x), []))"

section \<open>The exact solution\<close>

text \<open>
  \<^verbatim>\<open>Exact_HelmholtzImpedance\<close>: the constructor takes the pair \<^verbatim>\<open>(f, f_x)\<close> and a
  quadrature rule of order 500. Dividing by \<^verbatim>\<open>k = 0\<close> in \<^verbatim>\<open>uG\<close> and \<^verbatim>\<open>uG_x\<close> is a
  division of Python numbers, which raises.
\<close>

record exact =
  ex_source :: "string option"
  ex_f :: source_term
  ex_f_x :: source_term
  ex_k :: real
  ex_a :: real
  ex_b :: real
  ex_ga :: complex
  ex_gb :: complex
  ex_quad_N :: nat
  ex_quadpoints :: "real list \<times> real list"

definition exact_init ::
  "(nat \<Rightarrow> real \<Rightarrow> real \<Rightarrow> real list \<times> real list) \<Rightarrow> source_term \<times> source_term \<Rightarrow>
   real \<Rightarrow> real \<Rightarrow> real \<Rightarrow> complex \<Rightarrow> complex \<Rightarrow> string option \<Rightarrow> exact" where
  "exact_init quadrature f k a b ga gb source =
     \<lparr> ex_source = source, ex_f = fst f, ex_f_x = snd f, ex_k = k, ex_a = a, ex_b = b,
       ex_ga = ga, ex_gb = gb, ex_quad_N = 500, ex_quadpoints = quadrature 500 a b \<rparr>"

definition ex_w :: "exact \<Rightarrow> real \<Rightarrow> complex" where
  "ex_w s x =
     - exp (\<i> * of_real (ex_k s)) / (2 * \<i> * of_real (ex_k s))
       * (ex_ga s * exp (\<i> * of_real (ex_k s) * of_real x)
          + ex_gb s * exp (- \<i> * of_real (ex_k s) * of_real x))"

definition ex_w_x :: "exact \<Rightarrow> real \<Rightarrow> complex" where
  "ex_w_x s x =
     - exp (\<i> * of_real (ex_k s)) / 2
       * (ex_ga s * exp (\<i> * of_real (ex_k s) * of_real x)
          - ex_gb s * exp (- \<i> * of_real (ex_k s) * of_real x))"

text \<open>
  \<^verbatim>\<open>intg\<close> of the exact solution:
  \<^verbatim>\<open>(roots[-1] - roots[0]) * np.sum(func(roots) * weights) / 2\<close>, with a complex
  integrand.
\<close>

definition csum_product :: "complex list \<Rightarrow> real list \<Rightarrow> error + complex" where
  "csum_product ys ws =
     (if length ys = length ws then Inr (sum_list (map2 (\<lambda>y v. y * of_real v) ys ws))
      else if length ys = 1 then Inr (sum_list (map (\<lambda>v. hd ys * of_real v) ws))
      else if length ws = 1 then Inr (sum_list (map (\<lambda>y. y * of_real (hd ws)) ys))
      else Inl (ValueError ''operands could not be broadcast together''))"

definition ex_intg :: "exact \<Rightarrow> (real \<Rightarrow> complex) \<Rightarrow> error + complex" where
  "ex_intg s func =
     (let roots = fst (ex_quadpoints s); weights = snd (ex_quadpoints s) in
      andthen (getitem roots (- 1)) (\<lambda>r_last.
      andthen (getitem roots 0) (\<lambda>r_first.
      andthen (csum_product (map func roots) weights) (\<lambda>t.
        Inr (of_real (r_last - r_first) * t / 2)))))"

definition ex_uG :: "exact \<Rightarrow> real \<Rightarrow> error + complex" where
  "ex_uG s x =
     (if ex_source s = Some ''const'' then
        (case ex_f s of
           Coefficient c \<Rightarrow>
             if ex_k s = 0 then Inl ZeroDivisionError
             else Inr (- of_real c / of_real ((ex_k s)\<^sup>2)
                       * (1 - exp (\<i> * of_real (ex_k s)) * of_real (cos (ex_k s * x))))
         | Callable g \<Rightarrow> Inl TypeError)
      else
        andthen (getitem (fst (ex_quadpoints s)) (- 1)) (\<lambda>_.
          if ex_k s = 0 then Inl ZeroDivisionError
          else
            (case ex_f s of
               Callable g \<Rightarrow>
                 ex_intg s (\<lambda>t. - (1 / 2) / (\<i> * of_real (ex_k s))
                                  * exp (\<i> * of_real (ex_k s) * of_real \<bar>x - t\<bar>) * of_real (g t))
             | Coefficient c \<Rightarrow> Inl TypeError)))"

definition ex_uG_x :: "exact \<Rightarrow> real \<Rightarrow> error + complex" where
  "ex_uG_x s x =
     (if ex_source s = Some ''const'' then
        (case ex_f s of
           Coefficient c \<Rightarrow>
             if ex_k s = 0 then Inl ZeroDivisionError
             else Inr (- of_real c / of_real (ex_k s)
                       * (exp (\<i> * of_real (ex_k s)) * of_real (sin (ex_k s * x))))
         | Callable g \<Rightarrow> Inl TypeError)
      else
        andthen (getitem (fst (ex_quadpoints s)) (- 1)) (\<lambda>_.
          (case ex_f s of
             Callable g \<Rightarrow>
               ex_intg s (\<lambda>t. - (1 / 2) * of_real (sgn (x - t))
                                * exp (\<i> * of_real (ex_k s) * of_real \<bar>x - t\<bar>) * of_real (g t))
           | Coefficient c \<Rightarrow> Inl TypeError)))"

text \<open>
  \<^verbatim>\<open>__call__\<close> returns the closures \<^verbatim>\<open>u\<close> and \<^verbatim>\<open>u_x\<close>. The methods \<^verbatim>\<open>w\<close>, \<^verbatim>\<open>w_x\<close>,
  \<^verbatim>\<open>uG\<close>, \<^verbatim>\<open>uG_x\<close> and these closures carry the prefix \<open>ex_\<close> here.
\<close>

definition ex_u :: "exact \<Rightarrow> real \<Rightarrow> error + complex" where
  "ex_u s x = andthen (ex_uG s x) (\<lambda>g. Inr (g + ex_w s x))"

definition ex_u_x :: "exact \<Rightarrow> real \<Rightarrow> error + complex" where
  "ex_u_x s x = andthen (ex_uG_x s x) (\<lambda>g. Inr (g + ex_w_x s x))"

text \<open>
  \<^verbatim>\<open>np.allclose(x, y, atol=1e-04)\<close> with numpy's default \<^verbatim>\<open>rtol=1e-05\<close>:
  \<^verbatim>\<open>|x - y| <= atol + rtol * |y|\<close>.
\<close>

definition allclose :: "complex \<Rightarrow> complex \<Rightarrow> bool" where
  "allclose x y = (cmod (x - y) \<le> 1 / 10000 + 1 / 100000 * cmod y)"

definition verify :: "exact \<Rightarrow> error + unit" where
  "verify s =
     andthen (ex_u_x s (ex_a s)) (\<lambda>uxa.
     andthen (ex_u s (ex_a s)) (\<lambda>ua.
     if \<not> allclose (- uxa - \<i> * of_real (ex_k s) * ua) (ex_ga s) then Inl AssertionError
     else
       andthen (ex_u_x s (ex_b s)) (\<lambda>uxb.
       andthen (ex_u s (ex_b s)) (\<lambda>ub.
       if \<not> allclose (uxb - \<i> * of_real (ex_k s) * ub) (ex_gb s) then Inl AssertionError
       else Inr ()))))"

section \<open>The variational solver\<close>

text \<open>
  \<^verbatim>\<open>VPINN_HelmholtzImpedance\<close> is a torch module. What torch provides is a parameter of
  the model, collected in the record \<open>torch\<close>: the forward pass of the module on one
  input row and its first and second derivatives by automatic differentiation (\<open>None\<close>
  at a row where \<^verbatim>\<open>torch.autograd.grad\<close> raises because the differentiated output does not
  depend on the input), the
  random generator (\<^verbatim>\<open>manual_seed\<close>, and the creation and initialisation of the linear
  layers, which draws from it), the optimizer (\<^verbatim>\<open>zero_grad\<close>, \<^verbatim>\<open>backward\<close> of the loss
  as a function of the parameters, \<^verbatim>\<open>step\<close>), the scheduler, and the quadrature rule.
  The process clock (\<^verbatim>\<open>time_elapsed\<close>) and the progress line are left out.
\<close>

datatype loss_value = IntZero | Tensor real

text \<open>\<^verbatim>\<open>loss = 0\<close> is a Python integer; \<^verbatim>\<open>loss += t\<close> makes it a tensor.\<close>

fun loss_add :: "loss_value \<Rightarrow> real \<Rightarrow> loss_value" where
  "loss_add IntZero v = Tensor v"
| "loss_add (Tensor l) v = Tensor (l + v)"

text \<open>A tensor of shape \<^verbatim>\<open>(M, 1)\<close> is a \<open>Column\<close>, one of shape \<^verbatim>\<open>(M,)\<close> is \<open>Flat\<close>.\<close>

datatype tensor = Column "real list" | Flat "real list"

record testfunction =
  tf_eval :: "real \<Rightarrow> real"
  tf_deriv :: "nat \<Rightarrow> real \<Rightarrow> real"
  tf_domain :: "(real \<times> real \<times> real) option"

record ('p, 'o, 's, 'g) torch =
  forward :: "'p \<Rightarrow> real \<Rightarrow> real \<times> real"
  grad_x :: "'p \<Rightarrow> real \<Rightarrow> (real \<times> real) option"
  grad_xx :: "'p \<Rightarrow> real \<Rightarrow> (real \<times> real) option"
  manual_seed :: "int \<Rightarrow> 'g"
  make_lins :: "(int \<times> int) list \<Rightarrow> real \<Rightarrow> real \<Rightarrow> 'g \<Rightarrow> 'p \<times> 'g"
  backward_step :: "('p \<Rightarrow> error + loss_value) \<Rightarrow> 'o \<Rightarrow> 'p \<Rightarrow> 'o \<times> 'p"
  scheduler_step :: "'s \<Rightarrow> 'o \<Rightarrow> 's \<times> 'o"
  quadrature :: "nat \<Rightarrow> real \<Rightarrow> real \<Rightarrow> real list \<times> real list"

record 'p vpinn =
  vp_quad_N :: nat
  vp_history_epochs :: "int list"
  vp_history_losses :: "real list"
  vp_history_errors :: "(pyfloat list \<times> pyfloat list \<times> pyfloat list) option"
  vp_epoch :: int
  vp_f :: "real \<Rightarrow> real"
  vp_k :: real
  vp_penalty :: "real option"
  vp_a :: real
  vp_b :: real
  vp_ga_re :: real
  vp_ga_im :: real
  vp_gb_re :: real
  vp_gb_im :: real
  vp_quadpoints :: "real list \<times> real list"
  vp_length :: nat
  vp_lins :: 'p
  vp_training :: bool

text \<open>
  \<^verbatim>\<open>__init__\<close>, given the state of the global random generator. \<^verbatim>\<open>if seed\<close> and
  \<^verbatim>\<open>if penalty\<close> test the truth value of the argument: \<^verbatim>\<open>None\<close> and \<^verbatim>\<open>0\<close> are false.
  The result is the solver with the generator state the constructor leaves behind.
  The linear layers have the shapes \<^verbatim>\<open>zip(layers[0:-2], layers[1:-1])\<close> and
  \<^verbatim>\<open>(layers[-2], layers[-1])\<close>.
\<close>

definition vpinn_init ::
  "('p, 'o, 's, 'g) torch \<Rightarrow> (real \<Rightarrow> real) \<Rightarrow> real \<Rightarrow> real \<Rightarrow> real \<Rightarrow> complex \<Rightarrow> complex \<Rightarrow>
   int list \<Rightarrow> real option \<Rightarrow> nat \<Rightarrow> int option \<Rightarrow> 'g \<Rightarrow> error + 'p vpinn \<times> 'g" where
  "vpinn_init T f k a b ga gb layers penalty quad_N seed g =
     (let g1 = (if seed \<noteq> None \<and> seed \<noteq> Some 0 then manual_seed T (the seed) else g) in
      andthen (getitem layers (- 1)) (\<lambda>out.
      if out \<noteq> 2 then Inl AssertionError
      else
        andthen (getitem layers (- 2)) (\<lambda>hid.
          let shapes = zip (take (length layers - 2) layers)
                           (take (length layers - 2) (drop 1 layers)) @ [(hid, out)];
              made = make_lins T shapes a b g1
          in Inr (\<lparr> vp_quad_N = quad_N, vp_history_epochs = [], vp_history_losses = [],
                     vp_history_errors = None, vp_epoch = 0, vp_f = f, vp_k = k,
                     vp_penalty = (if penalty \<noteq> None \<and> penalty \<noteq> Some 0 then penalty else None),
                     vp_a = a, vp_b = b, vp_ga_re = Re ga, vp_ga_im = Im ga,
                     vp_gb_re = Re gb, vp_gb_im = Im gb,
                     vp_quadpoints = quadrature T quad_N a b,
                     vp_length = length layers, vp_lins = fst made, vp_training = True \<rparr>,
                   snd made))))"

text \<open>The decimal numeral of an integer, as an f-string prints it.\<close>

fun str_nat :: "nat \<Rightarrow> string" where
  "str_nat n =
     (if n < 10 then [''0123456789'' ! n]
      else str_nat (n div 10) @ [''0123456789'' ! (n mod 10)])"

definition str_int :: "int \<Rightarrow> string" where
  "str_int i = (if i < 0 then CHR ''-'' # str_nat (nat (- i)) else str_nat (nat i))"

text \<open>
  \<^verbatim>\<open>torch.autograd.grad(out, x, ..., allow_unused=False)\<close> for the two output columns, one
  call after the other: a \<^verbatim>\<open>RuntimeError\<close> when \<^verbatim>\<open>x\<close> does not require gradients or an
  output does not depend on it, else the two columns of derivatives at the rows of \<^verbatim>\<open>x\<close>.
\<close>

definition autograd_grad ::
  "(real \<Rightarrow> (real \<times> real) option) \<Rightarrow> bool \<Rightarrow> real list \<Rightarrow> error + real list \<times> real list" where
  "autograd_grad g requires_grad x =
     (if requires_grad \<and> list_all (\<lambda>r. g r \<noteq> None) x
      then Inr (map (\<lambda>r. fst (the (g r))) x, map (\<lambda>r. snd (the (g r))) x)
      else Inl RuntimeError)"

text \<open>
  \<^verbatim>\<open>deriv\<close>: the two output columns of the module at the rows of \<^verbatim>\<open>x\<close>, or their first or
  second derivatives with respect to \<^verbatim>\<open>x\<close>. The tensor \<^verbatim>\<open>x\<close> is its rows and whether it
  requires gradients. The first derivatives are taken for \<^verbatim>\<open>n >= 1\<close> and the second for
  \<^verbatim>\<open>n >= 2\<close>, before the result is chosen.
\<close>

definition deriv ::
  "('p, 'o, 's, 'g) torch \<Rightarrow> 'p vpinn \<Rightarrow> int \<Rightarrow> real list \<Rightarrow> bool \<Rightarrow>
   error + real list \<times> real list" where
  "deriv T s n x requires_grad =
     (if n \<notin> set [0, 1, 2]
      then Inl (ValueError (''n = '' @ str_int n @ '' is not a valid derivative.''))
      else
        let f = map (forward T (vp_lins s)) x;
            f_re = map fst f;
            f_im = map snd f
        in andthen (if 1 \<le> n then autograd_grad (grad_x T (vp_lins s)) requires_grad x
                    else Inr ([], [])) (\<lambda>f_x.
           andthen (if 2 \<le> n then autograd_grad (grad_xx T (vp_lins s)) requires_grad x
                    else Inr ([], [])) (\<lambda>f_xx.
           if n = 0 then Inr (f_re, f_im)
           else if n = 1 then Inr f_x
           else Inr f_xx)))"

text \<open>
  The closures \<^verbatim>\<open>u_re\<close>, \<^verbatim>\<open>u_im\<close>, \<^verbatim>\<open>u_x_re\<close> and \<^verbatim>\<open>u_x_im\<close> of \<^verbatim>\<open>train_\<close> and \<^verbatim>\<open>loss_v\<close>. They
  are applied to the quadrature nodes and to \<^verbatim>\<open>self.a\<close> and \<^verbatim>\<open>self.b\<close>, which the solver
  creates with \<^verbatim>\<open>requires_grad_()\<close>.
\<close>

definition u_re :: "('p, 'o, 's, 'g) torch \<Rightarrow> 'p vpinn \<Rightarrow> real list \<Rightarrow> error + real list" where
  "u_re T s x = andthen (deriv T s 0 x True) (\<lambda>d. Inr (fst d))"

definition u_im :: "('p, 'o, 's, 'g) torch \<Rightarrow> 'p vpinn \<Rightarrow> real list \<Rightarrow> error + real list" where
  "u_im T s x = andthen (deriv T s 0 x True) (\<lambda>d. Inr (snd d))"

definition u_x_re :: "('p, 'o, 's, 'g) torch \<Rightarrow> 'p vpinn \<Rightarrow> real list \<Rightarrow> error + real list" where
  "u_x_re T s x = andthen (deriv T s 1 x True) (\<lambda>d. Inr (fst d))"

definition u_x_im :: "('p, 'o, 's, 'g) torch \<Rightarrow> 'p vpinn \<Rightarrow> real list \<Rightarrow> error + real list" where
  "u_x_im T s x = andthen (deriv T s 1 x True) (\<lambda>d. Inr (snd d))"

text \<open>
  \<^verbatim>\<open>torch.sum(func(roots) * weights)\<close>, the weights being a column. A column integrand
  is multiplied row by row (a column of one row is broadcast); a flat integrand of
  shape \<^verbatim>\<open>(N,)\<close> is broadcast against the column to a matrix of every product.
\<close>

definition tsum_product :: "tensor \<Rightarrow> real list \<Rightarrow> error + real" where
  "tsum_product t ws =
     (case t of
        Column ys \<Rightarrow>
          (if length ys = length ws then Inr (sum_list (map2 (\<lambda>y w. y * w) ys ws))
           else if length ys = 1 then Inr (sum_list (map (\<lambda>w. hd ys * w) ws))
           else if length ws = 1 then Inr (sum_list (map (\<lambda>y. y * hd ws) ys))
           else Inl RuntimeError)
      | Flat ys \<Rightarrow> Inr (sum_list (map (\<lambda>w. sum_list (map (\<lambda>y. y * w) ys)) ws)))"

text \<open>
  \<^verbatim>\<open>intg\<close> of the variational solver:
  \<^verbatim>\<open>(roots[-1] - roots[0]) * torch.sum(func(roots) * weights) / 2\<close>, over the given
  quadrature points or, without them, the solver's own.
\<close>

definition vp_intg ::
  "'p vpinn \<Rightarrow> (real list \<Rightarrow> error + tensor) \<Rightarrow> (real list \<times> real list) option \<Rightarrow> error + real" where
  "vp_intg s func quadpoints =
     (let qp = (case quadpoints of None \<Rightarrow> vp_quadpoints s | Some q \<Rightarrow> q);
          roots = fst qp; weights = snd qp in
      andthen (getitem roots (- 1)) (\<lambda>r_last.
      andthen (getitem roots 0) (\<lambda>r_first.
      andthen (func roots) (\<lambda>t.
      andthen (tsum_product t weights) (\<lambda>v.
        Inr ((r_last - r_first) * v / 2))))))"

text \<open>
  \<^verbatim>\<open>loss_v\<close> of the base class, with the formulation index fixed to 2 as in the source:
  the squared mismatch between the weak-form residual and the projection of the source
  on the test function. The boundary points \<^verbatim>\<open>self.a\<close> and \<^verbatim>\<open>self.b\<close> are tensors of
  one row.
\<close>

definition loss_v ::
  "('p, 'o, 's, 'g) torch \<Rightarrow> 'p vpinn \<Rightarrow> testfunction \<Rightarrow> real list \<times> real list \<Rightarrow> error + real" where
  "loss_v T s v_k quadpoints =
     andthen (vp_intg s (\<lambda>x. Inr (Column (map (\<lambda>r. vp_f s r * tf_eval v_k r) x)))
                (Some quadpoints)) (\<lambda>F_k_re.
     let F_k_im = 0 in
     andthen (vp_intg s (\<lambda>x. andthen (u_x_re T s x) (\<lambda>d.
                Inr (Column (map2 (\<lambda>y r. y * tf_deriv v_k 1 r) d x)))) (Some quadpoints)) (\<lambda>i1.
     andthen (vp_intg s (\<lambda>x. andthen (u_re T s x) (\<lambda>d.
                Inr (Column (map2 (\<lambda>y r. y * tf_eval v_k r) d x)))) (Some quadpoints)) (\<lambda>i2.
     andthen (u_im T s [vp_a s]) (\<lambda>u_im_a.
     andthen (u_im T s [vp_b s]) (\<lambda>u_im_b.
     let R_k_re = i1 - (vp_k s)\<^sup>2 * i2
                  - (vp_ga_re s - vp_k s * hd u_im_a) * tf_eval v_k (vp_a s)
                  - (vp_gb_re s - vp_k s * hd u_im_b) * tf_eval v_k (vp_b s) in
     andthen (vp_intg s (\<lambda>x. andthen (u_x_im T s x) (\<lambda>d.
                Inr (Column (map2 (\<lambda>y r. y * tf_deriv v_k 1 r) d x)))) (Some quadpoints)) (\<lambda>i3.
     andthen (vp_intg s (\<lambda>x. andthen (u_im T s x) (\<lambda>d.
                Inr (Column (map2 (\<lambda>y r. y * tf_eval v_k r) d x)))) (Some quadpoints)) (\<lambda>i4.
     andthen (u_re T s [vp_a s]) (\<lambda>u_re_a.
     andthen (u_re T s [vp_b s]) (\<lambda>u_re_b.
     let R_k_im = i3 - (vp_k s)\<^sup>2 * i4
                  - (vp_ga_im s + vp_k s * hd u_re_a) * tf_eval v_k (vp_a s)
                  - (vp_gb_im s + vp_k s * hd u_re_b) * tf_eval v_k (vp_b s) in
     Inr ((R_k_re - F_k_re)\<^sup>2 + (R_k_im - F_k_im)\<^sup>2))))))))))"

text \<open>The boundary penalty of \<^verbatim>\<open>train_\<close>, for the penalty weight \<open>p\<close>.\<close>

definition penalty_term :: "('p, 'o, 's, 'g) torch \<Rightarrow> 'p vpinn \<Rightarrow> real \<Rightarrow> error + real" where
  "penalty_term T s p =
     andthen (u_x_re T s [vp_a s]) (\<lambda>u_x_re_a.
     andthen (u_im T s [vp_a s]) (\<lambda>u_im_a.
     let loss_ga_re = vp_ga_re s + hd u_x_re_a - vp_k s * hd u_im_a in
     andthen (u_x_im T s [vp_a s]) (\<lambda>u_x_im_a.
     andthen (u_re T s [vp_a s]) (\<lambda>u_re_a.
     let loss_ga_im = vp_ga_im s + hd u_x_im_a + vp_k s * hd u_re_a in
     andthen (u_x_re T s [vp_b s]) (\<lambda>u_x_re_b.
     andthen (u_im T s [vp_b s]) (\<lambda>u_im_b.
     let loss_gb_re = vp_gb_re s + hd u_x_re_b - vp_k s * hd u_im_b in
     andthen (u_x_im T s [vp_b s]) (\<lambda>u_x_im_b.
     andthen (u_re T s [vp_b s]) (\<lambda>u_re_b.
     let loss_gb_im = vp_gb_im s + hd u_x_im_b + vp_k s * hd u_re_b in
     Inr (p / 2 * (loss_ga_re\<^sup>2 + loss_ga_im\<^sup>2 + loss_gb_re\<^sup>2 + loss_gb_im\<^sup>2))))))))))"

text \<open>
  The loss of one epoch. \<^verbatim>\<open>self.loss_v\<close> is the method a subclass overrides, so it is
  a parameter; each test function comes with the quadrature points \<^verbatim>\<open>train_\<close> gave
  it. \<^verbatim>\<open>if self.penalty\<close> is the truth value of the stored weight.
\<close>

fun loss_sum ::
  "(testfunction \<Rightarrow> real list \<times> real list \<Rightarrow> error + real) \<Rightarrow> nat \<Rightarrow>
   (testfunction \<times> real list \<times> real list) list \<Rightarrow> loss_value \<Rightarrow> error + loss_value" where
  "loss_sum lv K [] loss = Inr loss"
| "loss_sum lv K (vq # rest) loss =
     andthen (lv (fst vq) (snd vq)) (\<lambda>t. loss_sum lv K rest (loss_add loss (t / real K)))"

definition epoch_loss ::
  "('p, 'o, 's, 'g) torch \<Rightarrow>
   ('p vpinn \<Rightarrow> testfunction \<Rightarrow> real list \<times> real list \<Rightarrow> error + real) \<Rightarrow> 'p vpinn \<Rightarrow>
   (testfunction \<times> real list \<times> real list) list \<Rightarrow> error + loss_value" where
  "epoch_loss T lv s tfs =
     andthen (loss_sum (lv s) (length tfs) tfs IntZero) (\<lambda>loss.
       case vp_penalty s of
         None \<Rightarrow> Inr loss
       | Some p \<Rightarrow>
           if p \<noteq> 0 then andthen (penalty_term T s p) (\<lambda>pen. Inr (loss_add loss pen))
           else Inr loss)"

text \<open>
  \<^verbatim>\<open>H1_error\<close> of the variational solver returns the triple, or raises, and leaves the
  module in evaluation mode. The integrands are flat tensors.
\<close>

definition vp_H1_error ::
  "('p, 'o, 's, 'g) torch \<Rightarrow> 'p vpinn \<Rightarrow> (real \<Rightarrow> complex) \<Rightarrow> (real \<Rightarrow> complex) \<Rightarrow>
   (error + pyfloat \<times> pyfloat \<times> pyfloat) \<times> 'p vpinn" where
  "vp_H1_error T s u u_x =
     (let sol = (\<lambda>x. map (\<lambda>r. (Re (u r), Im (u r))) x);
          der = (\<lambda>x. map (\<lambda>r. (Re (u_x r), Im (u_x r))) x);
          u2 = (\<lambda>x. Inr (Flat (map2 (\<lambda>e m. (fst e - fst m)\<^sup>2 + (snd e - snd m)\<^sup>2)
                                  (sol x) (map (forward T (vp_lins s)) x))));
          ux2_re = (\<lambda>x. andthen (deriv T s 1 x True) (\<lambda>d.
                      Inr (map2 (\<lambda>e m. (fst e - m)\<^sup>2) (der x) (fst d))));
          ux2_im = (\<lambda>x. andthen (deriv T s 1 x True) (\<lambda>d.
                      Inr (map2 (\<lambda>e m. (snd e - m)\<^sup>2) (der x) (snd d))));
          ux2 = (\<lambda>x. andthen (ux2_re x) (\<lambda>re. andthen (ux2_im x) (\<lambda>im.
                      Inr (Flat (map2 (\<lambda>p q. p + q) re im)))));
          s1 = s\<lparr>vp_training := False\<rparr>
      in (andthen (vp_intg s1 u2 None) (\<lambda>iu.
          let err_u = np_sqrt iu in
          andthen (vp_intg s1 ux2 None) (\<lambda>iux.
          let err_u_x = np_sqrt iux in
          Inr (fadd err_u err_u_x, err_u, err_u_x))), s1))"

text \<open>
  The body of the epoch loop of \<^verbatim>\<open>train_\<close>. A method that raises half-way leaves the
  objects as they are at that point, so the loop returns the exception, if any, with
  the solver, the optimizer and the scheduler. \<open>snapshot\<close> is the block that stores
  the loss and the error every tenth and on the last epoch.
\<close>

definition snapshot ::
  "('p, 'o, 's, 'g) torch \<Rightarrow> 'p vpinn \<Rightarrow> loss_value \<Rightarrow>
   ((real \<Rightarrow> complex) \<times> (real \<Rightarrow> complex)) option \<Rightarrow> int \<Rightarrow> error option \<times> 'p vpinn" where
  "snapshot T s loss exact e =
     (let s1 = s\<lparr>vp_history_epochs := vp_history_epochs s @ [e]\<rparr> in
      case loss of
        IntZero \<Rightarrow> (Some (AttributeError (no_attribute ''int'' ''item'')), s1)
      | Tensor v \<Rightarrow>
          let s2 = s1\<lparr>vp_history_losses := vp_history_losses s1 @ [v]\<rparr> in
          (case exact of
             None \<Rightarrow> (None, s2)
           | Some ex \<Rightarrow>
               (case vp_H1_error T s2 (fst ex) (snd ex) of
                  (Inl err, s3) \<Rightarrow> (Some err, s3)
                | (Inr err, s3) \<Rightarrow>
                    (case vp_history_errors s3 of
                       None \<Rightarrow> (Some TypeError, s3)
                     | Some h \<Rightarrow>
                         (None, s3\<lparr>vp_history_errors :=
                                     Some (fst h @ [fst err], fst (snd h) @ [fst (snd err)],
                                           snd (snd h) @ [snd (snd err)])\<rparr>)))))"

definition train_epoch ::
  "('p, 'o, 's, 'g) torch \<Rightarrow>
   ('p vpinn \<Rightarrow> testfunction \<Rightarrow> real list \<times> real list \<Rightarrow> error + real) \<Rightarrow>
   (testfunction \<times> real list \<times> real list) list \<Rightarrow> int \<Rightarrow>
   ((real \<Rightarrow> complex) \<times> (real \<Rightarrow> complex)) option \<Rightarrow> int \<Rightarrow>
   'p vpinn \<times> 'o \<times> 's option \<Rightarrow> error option \<times> 'p vpinn \<times> 'o \<times> 's option" where
  "train_epoch T lv tfs epochs exact e st =
     (let s = fst st; optimizer = fst (snd st); scheduler = snd (snd st) in
      case epoch_loss T lv s tfs of
        Inl err \<Rightarrow> (Some err, st)
      | Inr loss \<Rightarrow>
          (case (if e mod 10 = 0 \<or> e = epochs then snapshot T s loss exact e else (None, s)) of
             (Some err, s1) \<Rightarrow> (Some err, s1, optimizer, scheduler)
           | (None, s1) \<Rightarrow>
               (case loss of
                  IntZero \<Rightarrow>
                    (Some (AttributeError (no_attribute ''int'' ''backward'')),
                     s1, optimizer, scheduler)
                | Tensor v \<Rightarrow>
                    let stepped = backward_step T (\<lambda>p. epoch_loss T lv (s1\<lparr>vp_lins := p\<rparr>) tfs)
                                    optimizer (vp_lins s1);
                        s2 = s1\<lparr>vp_lins := snd stepped\<rparr>
                    in (case scheduler of
                          None \<Rightarrow>
                            (Some (AttributeError (no_attribute ''NoneType'' ''step'')),
                             s2, fst stepped, None)
                        | Some sc \<Rightarrow>
                            let sched = scheduler_step T sc (fst stepped)
                            in (None, s2\<lparr>vp_epoch := vp_epoch s2 + 1\<rparr>,
                                snd sched, Some (fst sched))))))"

fun train_loop ::
  "('p, 'o, 's, 'g) torch \<Rightarrow>
   ('p vpinn \<Rightarrow> testfunction \<Rightarrow> real list \<times> real list \<Rightarrow> error + real) \<Rightarrow>
   (testfunction \<times> real list \<times> real list) list \<Rightarrow> int \<Rightarrow>
   ((real \<Rightarrow> complex) \<times> (real \<Rightarrow> complex)) option \<Rightarrow> int list \<Rightarrow>
   'p vpinn \<times> 'o \<times> 's option \<Rightarrow> error option \<times> 'p vpinn \<times> 'o \<times> 's option" where
  "train_loop T lv tfs epochs exact [] st = (None, st)"
| "train_loop T lv tfs epochs exact (e # es) st =
     (case train_epoch T lv tfs epochs exact e st of
        (Some err, st') \<Rightarrow> (Some err, st')
      | (None, st') \<Rightarrow> train_loop T lv tfs epochs exact es st')"

text \<open>
  \<^verbatim>\<open>train_\<close>, named \<open>vp_train\<close> here. The error lists are created when an exact solution
  is given and there are none yet, and the module is put in training mode
  (\<open>begin_training\<close>); every test function gets its quadrature points
  (\<open>give_quadpoints\<close>); \<^verbatim>\<open>epochs += self.epoch - 1 if self.epoch else self.epoch\<close>; the
  loop runs over \<^verbatim>\<open>range(self.epoch, epochs + 1)\<close>.
\<close>

definition begin_training ::
  "'p vpinn \<Rightarrow> ((real \<Rightarrow> complex) \<times> (real \<Rightarrow> complex)) option \<Rightarrow> 'p vpinn" where
  "begin_training s exact =
     (let s0 = (if exact \<noteq> None \<and> vp_history_errors s = None
                then s\<lparr>vp_history_errors := Some ([], [], [])\<rparr> else s)
      in s0\<lparr>vp_training := True\<rparr>)"

definition give_quadpoints ::
  "('p, 'o, 's, 'g) torch \<Rightarrow> 'p vpinn \<Rightarrow> testfunction list \<Rightarrow>
   (testfunction \<times> real list \<times> real list) list" where
  "give_quadpoints T s testfunctions =
     map (\<lambda>v_k. (v_k, case tf_domain v_k of
                          Some d \<Rightarrow> quadrature T (vp_quad_N s) (fst d) (snd (snd d))
                        | None \<Rightarrow> vp_quadpoints s)) testfunctions"

definition vp_train ::
  "('p, 'o, 's, 'g) torch \<Rightarrow>
   ('p vpinn \<Rightarrow> testfunction \<Rightarrow> real list \<times> real list \<Rightarrow> error + real) \<Rightarrow>
   'p vpinn \<Rightarrow> testfunction list \<Rightarrow> int \<Rightarrow> 'o \<Rightarrow> 's option \<Rightarrow>
   ((real \<Rightarrow> complex) \<times> (real \<Rightarrow> complex)) option \<Rightarrow>
   error option \<times> 'p vpinn \<times> 'o \<times> 's option" where
  "vp_train T lv s testfunctions epochs optimizer scheduler exact =
     (let s1 = begin_training s exact;
          tfs = give_quadpoints T s1 testfunctions;
          epochs1 = epochs + (if vp_epoch s1 \<noteq> 0 then vp_epoch s1 - 1 else vp_epoch s1)
      in train_loop T lv tfs epochs1 exact [vp_epoch s1..epochs1] (s1, optimizer, scheduler))"

section \<open>Notions used in the statements and proofs\<close>

text \<open>
  A square matrix of size \<open>n + 1\<close> is tridiagonal when every entry more than one place
  off the diagonal is zero.
\<close>

definition tridiag :: "nat \<Rightarrow> complex list list \<Rightarrow> bool" where
  "tridiag n M =
     (length M = n + 1 \<and> (\<forall>i\<le>n. length (M ! i) = n + 1) \<and>
      (\<forall>i\<le>n. \<forall>j\<le>n. 1 < \<bar>int i - int j\<bar> \<longrightarrow> M ! i ! j = 0))"

text \<open>
  The attributes of the variational solver that describe the problem, as opposed to
  the parameters of the module (\<open>vp_lins\<close>) and the bookkeeping of \<^verbatim>\<open>train_\<close> (epoch
  counter, history, training mode). A residual \<^verbatim>\<open>loss_v\<close> is free of bookkeeping when
  it reads the problem and the parameters only.
\<close>

definition problem ::
  "'p vpinn \<Rightarrow> nat \<times> (real \<Rightarrow> real) \<times> real \<times> real option \<times> real \<times> real \<times> real \<times> real \<times> real \<times> real
     \<times> (real list \<times> real list) \<times> nat" where
  "problem s = (vp_quad_N s, vp_f s, vp_k s, vp_penalty s, vp_a s, vp_b s, vp_ga_re s, vp_ga_im s,
                vp_gb_re s, vp_gb_im s, vp_quadpoints s, vp_length s)"

definition bookkeeping_free ::
  "('p vpinn \<Rightarrow> testfunction \<Rightarrow> real list \<times> real list \<Rightarrow> error + real) \<Rightarrow> bool" where
  "bookkeeping_free lv =
     (\<forall>s s'. vp_lins s = vp_lins s' \<and> problem s = problem s' \<longrightarrow> lv s = lv s')"

text \<open>
  One optimization step of \<^verbatim>\<open>train_\<close> on the parameters, the optimizer and the
  scheduler: \<^verbatim>\<open>zero_grad\<close>, \<^verbatim>\<open>backward\<close>, \<^verbatim>\<open>optimizer.step()\<close>, \<^verbatim>\<open>scheduler.step()\<close>.
  \<open>finish_epoch\<close> is the end of the loop body, which takes that step and counts the
  epoch.
\<close>

definition optimization_step ::
  "('p, 'o, 's, 'g) torch \<Rightarrow>
   ('p vpinn \<Rightarrow> testfunction \<Rightarrow> real list \<times> real list \<Rightarrow> error + real) \<Rightarrow>
   (testfunction \<times> real list \<times> real list) list \<Rightarrow> 'p vpinn \<Rightarrow> 'p \<times> 'o \<times> 's \<Rightarrow> 'p \<times> 'o \<times> 's" where
  "optimization_step T lv tfs s c =
     (let stepped = backward_step T (\<lambda>p. epoch_loss T lv (s\<lparr>vp_lins := p\<rparr>) tfs) (fst (snd c)) (fst c);
          sched = scheduler_step T (snd (snd c)) (fst stepped)
      in (snd stepped, snd sched, fst sched))"

definition finish_epoch ::
  "('p, 'o, 's, 'g) torch \<Rightarrow>
   ('p vpinn \<Rightarrow> testfunction \<Rightarrow> real list \<times> real list \<Rightarrow> error + real) \<Rightarrow>
   (testfunction \<times> real list \<times> real list) list \<Rightarrow> 'p vpinn \<Rightarrow> 'o \<Rightarrow> 's \<Rightarrow>
   'p vpinn \<times> 'o \<times> 's option" where
  "finish_epoch T lv tfs s1 opt sc =
     (let c = optimization_step T lv tfs s1 (vp_lins s1, opt, sc)
      in (s1\<lparr>vp_lins := fst c, vp_epoch := vp_epoch s1 + 1\<rparr>, fst (snd c), Some (snd (snd c))))"

text \<open>The recorded history: each sampled epoch with its loss.\<close>

definition history :: "'p vpinn \<Rightarrow> (int \<times> real) list" where
  "history s = zip (vp_history_epochs s) (vp_history_losses s)"

text \<open>
  Two runs agree when they have the same problem, parameters, epoch counter,
  optimizer and scheduler, and the history of the second is the history of the first
  restricted to the epochs that satisfy \<open>P\<close>.
\<close>

definition agree ::
  "(int \<Rightarrow> bool) \<Rightarrow> 'p vpinn \<times> 'o \<times> 's option \<Rightarrow> 'p vpinn \<times> 'o \<times> 's option \<Rightarrow> bool" where
  "agree P st st' =
     (vp_lins (fst st) = vp_lins (fst st') \<and> problem (fst st) = problem (fst st')
      \<and> vp_epoch (fst st) = vp_epoch (fst st')
      \<and> (vp_history_errors (fst st) = None \<longleftrightarrow> vp_history_errors (fst st') = None)
      \<and> snd st = snd st'
      \<and> length (vp_history_epochs (fst st)) = length (vp_history_losses (fst st))
      \<and> length (vp_history_epochs (fst st')) = length (vp_history_losses (fst st'))
      \<and> history (fst st') = filter (\<lambda>el. P (fst el)) (history (fst st)))"

text \<open>
  The \<open>L\<^sup>2\<close> norm of an error by a quadrature rule, as the specification and the
  docstrings of both \<^verbatim>\<open>H1_error\<close> methods name the two error components: the square root
  of half the length of the interval times the sum, over the nodes, of the weight times
  the squared error at the node. \<^verbatim>\<open>H1_error\<close> of the finite element solver computes it
  this way.
\<close>

definition l2_norm :: "real list \<times> real list \<Rightarrow> (real \<Rightarrow> real) \<Rightarrow> real" where
  "l2_norm qp sq_err =
     sqrt ((last (fst qp) - hd (fst qp))
           * sum_list (map2 (\<lambda>r z. sq_err r * z) (fst qp) (snd qp)) / 2)"

section \<open>A small instance\<close>

text \<open>
  Concrete collaborators, on which the theorems below are instantiated: linear hat
  functions on a uniform grid with their exact integrals, the trapezoidal rule as
  quadrature, a stand-in for the linear solver, and a toy torch whose module is
  the linear map \<open>x \<mapsto> (p * x, 2 * p * x)\<close> with one parameter \<open>p\<close> (its first derivative
  is \<open>(p, 2 * p)\<close>; it does not depend on \<open>x\<close>, so differentiating it again raises),
  whose optimizer halves the parameter and counts its steps, and whose scheduler counts
  its steps.
\<close>

definition demo_elements :: "nat \<Rightarrow> real \<Rightarrow> real \<Rightarrow> finite_elements" where
  "demo_elements N a b =
     (let h = (b - a) / real N in
      \<lparr> fe_call = map (\<lambda>i. \<lparr> bas_eval = (\<lambda>x. max 0 (1 - \<bar>x - (a + real i * h)\<bar> / h)),
                               bas_deriv = (\<lambda>n x. if n = 1
                                  then (if a + real i * h - h < x \<and> x < a + real i * h then 1 / h
                                        else if a + real i * h < x \<and> x < a + real i * h + h then - 1 / h
                                        else 0)
                                  else 0) \<rparr>) [0..<N + 1],
        intphi = (\<lambda>i j. if i = j then (if i = 0 \<or> i = int N then h / 3 else 2 * h / 3)
                         else if \<bar>i - j\<bar> = 1 then h / 6 else 0),
        intphi_x = (\<lambda>i j. if i = j then (if i = 0 \<or> i = int N then 1 / h else 2 / h)
                           else if \<bar>i - j\<bar> = 1 then - 1 / h else 0) \<rparr>)"

definition demo_quadrature :: "nat \<Rightarrow> real \<Rightarrow> real \<Rightarrow> real list \<times> real list" where
  "demo_quadrature n a b = ([a, b], [1, 1])"

definition demo_linalg_solve :: "complex list list \<Rightarrow> complex list \<Rightarrow> error + complex list" where
  "demo_linalg_solve A d = Inr d"

definition demo_torch :: "(real, nat, nat, int) torch" where
  "demo_torch =
     \<lparr> forward = (\<lambda>p x. (p * x, 2 * p * x)), grad_x = (\<lambda>p x. Some (p, 2 * p)),
       grad_xx = (\<lambda>p x. None),
       manual_seed = (\<lambda>n. n), make_lins = (\<lambda>shapes a b g. (1, g + 1)),
       backward_step = (\<lambda>L opt p. (opt + 1, p / 2)),
       scheduler_step = (\<lambda>sc opt. (sc + 1, opt)),
       quadrature = demo_quadrature \<rparr>"

definition demo_testfunction :: testfunction where
  "demo_testfunction = \<lparr> tf_eval = (\<lambda>x. x), tf_deriv = (\<lambda>n x. if n = 1 then 1 else 0),
                          tf_domain = None \<rparr>"

definition demo_vpinn :: "real vpinn" where
  "demo_vpinn =
     \<lparr> vp_quad_N = 1, vp_history_epochs = [], vp_history_losses = [],
       vp_history_errors = None, vp_epoch = 0, vp_f = (\<lambda>x. 1), vp_k = 1,
       vp_penalty = None, vp_a = 0, vp_b = 1, vp_ga_re = 0, vp_ga_im = 0,
       vp_gb_re = 0, vp_gb_im = 0, vp_quadpoints = ([0, 1], [1, 1]),
       vp_length = 3, vp_lins = 1, vp_training = True \<rparr>"

text \<open>Two calls of \<^verbatim>\<open>train_\<close> on the fresh instance, each with \<^verbatim>\<open>epochs=1\<close>.\<close>

definition demo_first_call :: "error option \<times> real vpinn \<times> nat \<times> nat option" where
  "demo_first_call =
     vp_train demo_torch (loss_v demo_torch) demo_vpinn [demo_testfunction] 1 0 (Some 0) None"

definition demo_second_call :: "error option \<times> real vpinn \<times> nat \<times> nat option" where
  "demo_second_call =
     vp_train demo_torch (loss_v demo_torch) (fst (snd demo_first_call)) [demo_testfunction] 1
       (fst (snd (snd demo_first_call))) (snd (snd (snd demo_first_call))) None"

section \<open>The finite element solver: properties\<close>

lemma tridiag_zeros: "tridiag n (replicate (n + 1) (replicate (n + 1) 0))"
  unfolding tridiag_def by (simp del: replicate_Suc replicate.simps add: nth_replicate)

lemma tridiag_setA:
  assumes "tridiag n (fem_A s)" "i \<le> n" "j \<le> n" "\<bar>int i - int j\<bar> \<le> 1"
  shows "tridiag n (fem_A (setA s i j v))"
  using assms unfolding tridiag_def setA_def
  by (auto simp: nth_list_update)

lemma setA_N: "fem_N (setA s i j v) = fem_N s"
  by (simp add: setA_def)

lemma solve_step_tridiag:
  assumes "solve_step s i = Inr s'" "i \<le> fem_N s" "tridiag (fem_N s) (fem_A s)"
  shows "tridiag (fem_N s') (fem_A s') \<and> fem_N s' = fem_N s"
proof -
  define I where "I q \<longleftrightarrow> fem_N q = fem_N s \<and> tridiag (fem_N s) (fem_A q)" for q :: fem
  have step: "I (setA q i j v)" if "I q" "j \<le> fem_N s" "\<bar>int i - int j\<bar> \<le> 1" for q j v
  proof -
    have "tridiag (fem_N s) (fem_A q)" and n: "fem_N q = fem_N s"
      using that(1) unfolding I_def by blast+
    from tridiag_setA[OF this(1) assms(2) that(2) that(3)]
    show ?thesis unfolding I_def using n by (simp add: setA_N)
  qed
  from assms(1) obtain r where r: "rhs s (int i) = Inr r"
    unfolding solve_step_def andthen_def by (auto split: sum.splits)
  define s1 where "s1 = s\<lparr>fem_d := (fem_d s)[i := r]\<rparr>"
  have I1: "I s1" using assms(3) unfolding I_def s1_def by simp
  from assms(1) r obtain v where v: "lhs s1 (int i) (int i) = Inr v"
    unfolding solve_step_def andthen_def s1_def Let_def by (auto split: sum.splits)
  define s2 where "s2 = setA s1 i i v"
  have I2: "I s2" unfolding s2_def using step[OF I1] assms(2) by simp
  from assms(1) r v obtain s3 where
    s3: "(if i \<noteq> 0
              then andthen (lhs s2 (int i) (int i - 1)) (\<lambda>v. Inr (setA s2 i (i - 1) v))
              else Inr s2) = Inr s3"
    and fin: "(if i \<noteq> fem_N s3
     then andthen (lhs s3 (int i) (int i + 1)) (\<lambda>v. Inr (setA s3 i (i + 1) v))
     else Inr s3) = Inr s'"
    unfolding solve_step_def s1_def s2_def Let_def
    by (simp add: andthen_def split: sum.splits)
  have I3: "I s3"
  proof (cases "i = 0")
    case True then show ?thesis using s3 I2 by simp
  next
    case False
    then obtain z where "s3 = setA s2 i (i - 1) z"
      using s3 by (auto simp: andthen_def split: sum.splits)
    then show ?thesis using step[OF I2, of "i - 1" z] assms(2) False by simp
  qed
  have "I s'"
  proof (cases "i = fem_N s3")
    case True then show ?thesis using fin I3 by simp
  next
    case False
    then obtain z where "s' = setA s3 i (i + 1) z"
      using fin by (auto simp: andthen_def split: sum.splits)
    moreover have "i + 1 \<le> fem_N s" using False I3 assms(2) unfolding I_def by simp
    ultimately show ?thesis using step[OF I3, of "i + 1" z] by simp
  qed
  then show ?thesis unfolding I_def by metis
qed

lemma solve_loop_tridiag:
  "solve_loop s is = Inr s' \<Longrightarrow> \<forall>i\<in>set is. i \<le> fem_N s \<Longrightarrow> tridiag (fem_N s) (fem_A s)
   \<Longrightarrow> tridiag (fem_N s') (fem_A s') \<and> fem_N s' = fem_N s"
proof (induction "is" arbitrary: s)
  case Nil then show ?case by simp
next
  case (Cons i rest)
  from Cons.prems(1) obtain s1 where s1: "solve_step s i = Inr s1"
    and r: "solve_loop s1 rest = Inr s'"
    by (auto split: sum.splits)
  have a: "tridiag (fem_N s1) (fem_A s1) \<and> fem_N s1 = fem_N s"
    by (rule solve_step_tridiag[OF s1]) (use Cons.prems in auto)
  then have b: "tridiag (fem_N s1) (fem_A s1)" and c: "fem_N s1 = fem_N s" by blast+
  have d: "\<forall>i\<in>set rest. i \<le> fem_N s1" using Cons.prems(2) c by simp
  show ?case using Cons.IH[OF r d b] c by metis
qed

lemma solve_tridiag:
  assumes "solve ls s = Inr s'" "tridiag (fem_N s) (fem_A s)"
  shows "tridiag (fem_N s') (fem_A s') \<and> fem_N s' = fem_N s"
proof -
  from assms(1) obtain s1 c where l: "solve_loop s [0..<fem_N s + 1] = Inr s1"
    and e: "s' = s1\<lparr>fem_c := Some c, fem_sol := True\<rparr>"
    unfolding solve_def andthen_def by (auto split: sum.splits)
  have "tridiag (fem_N s1) (fem_A s1) \<and> fem_N s1 = fem_N s"
    by (rule solve_loop_tridiag[OF l]) (use assms(2) in auto)
  moreover have "fem_N s' = fem_N s1" "fem_A s' = fem_A s1" using e by simp_all
  ultimately show ?thesis by metis
qed

lemma solve_sets_sol: "solve ls s = Inr s' \<Longrightarrow> fem_sol s'"
  unfolding solve_def andthen_def by (auto split: sum.splits)

lemma fem_init_fresh:
  assumes "fem_init FEp quad f k a b ga gb src N Nq = Inr s"
  shows "fem_N s = N \<and> fem_A s = replicate (N + 1) (replicate (N + 1) 0) \<and> \<not> fem_sol s \<and> N \<noteq> 0"
  using assms unfolding fem_init_def Let_def by (auto split: if_splits)

lemma fem_init_ex:
  "N \<noteq> 0 \<Longrightarrow> \<exists>s. fem_init FEp quad f k a b ga gb src N Nq = Inr s"
  unfolding fem_init_def Let_def by simp

lemma fem_init_fields:
  assumes "fem_init FEp quad f k a b ga gb src N Nq = Inr s"
  shows "fem_source s = src" "fem_bases s = fe_call (FEp N a b)" "fem_f s = f" "fem_N s = N"
        "fem_h s = (b - a) / real N" "fem_a s = a" "fem_b s = b" "fem_ga s = ga" "fem_gb s = gb"
  using assms unfolding fem_init_def Let_def by (auto split: if_splits)

text \<open>The demo instance: two elements on \<open>[0, 1]\<close>, constant source 3.\<close>

lemma demo_fem_solves:
  "\<exists>s s'. fem_init demo_elements demo_quadrature (Coefficient 3) 1 0 1 1 0 ''const'' 2 None = Inr s
          \<and> solve demo_linalg_solve s = Inr s'"
  by (simp add: fem_init_def Let_def solve_def andthen_def upt_rec solve_step_def rhs_def lhs_def
        getitem_def setA_def demo_elements_def demo_quadrature_def demo_linalg_solve_def)

text \<open>
  C3. After \<^verbatim>\<open>solve()\<close> has returned on a constructed solver with \<open>N\<close> elements, the matrix
  \<open>A\<close> has \<open>N + 1\<close> rows of length \<open>N + 1\<close>, and every entry \<open>A[i, j]\<close> with \<open>|i - j| > 1\<close>
  is zero.
\<close>

theorem solve_matrix_tridiagonal:
  assumes "fem_init FEp quad f k a b ga gb src N Nq = Inr s"
      and "solve ls s = Inr s'"
      and "i \<le> N" and "j \<le> N" and "1 < \<bar>int i - int j\<bar>"
  shows "length (fem_A s') = N + 1 \<and> length (fem_A s' ! i) = N + 1 \<and> fem_A s' ! i ! j = 0"
proof -
  have f: "fem_N s = N" "fem_A s = replicate (N + 1) (replicate (N + 1) 0)"
    using fem_init_fresh[OF assms(1)] by simp_all
  have "tridiag (fem_N s) (fem_A s)" unfolding f by (rule tridiag_zeros)
  from solve_tridiag[OF assms(2) this] f(1) have "tridiag N (fem_A s')" by metis
  then show ?thesis using assms(3-5) unfolding tridiag_def by blast
qed

theorem solve_matrix_tridiagonal_witness:
  "\<exists>s s'. fem_init demo_elements demo_quadrature (Coefficient 3) 1 0 1 1 0 ''const'' 2 None = Inr s
          \<and> solve demo_linalg_solve s = Inr s'
          \<and> length (fem_A s') = 3 \<and> length (fem_A s' ! 0) = 3 \<and> fem_A s' ! 0 ! 2 = 0"
proof -
  from demo_fem_solves obtain s s' where
    i: "fem_init demo_elements demo_quadrature (Coefficient 3) 1 0 1 1 0 ''const'' 2 None = Inr s"
    and r: "solve demo_linalg_solve s = Inr s'" by blast
  have "length (fem_A s') = 2 + 1 \<and> length (fem_A s' ! 0) = 2 + 1 \<and> fem_A s' ! 0 ! 2 = 0"
    by (rule solve_matrix_tridiagonal[OF i r]) simp_all
  then show ?thesis using i r by auto
qed

text \<open>
  C4. When the source type is neither \<^verbatim>\<open>'const'\<close> nor \<^verbatim>\<open>'func'\<close>, \<^verbatim>\<open>rhs(j)\<close> raises a
  \<^verbatim>\<open>ValueError\<close> whose message names the source type, for every index \<open>j\<close> of a basis
  function (Python also accepts the negative indices that count from the end).
\<close>

theorem rhs_invalid_source:
  assumes "fem_source s \<noteq> ''const''" and "fem_source s \<noteq> ''func''"
      and "- int (length (fem_bases s)) \<le> j" and "j < int (length (fem_bases s))"
  shows "rhs s j = Inl (ValueError (fem_source s @ '' is not a valid source type.''))"
  using assms unfolding rhs_def andthen_def getitem_def Let_def by auto

theorem rhs_invalid_source_witness:
  "\<exists>s. fem_init demo_elements demo_quadrature (Coefficient 3) 1 0 1 1 0 ''bogus'' 2 None = Inr s
       \<and> rhs s 1 = Inl (ValueError ''bogus is not a valid source type.'')"
proof -
  obtain s where
    s: "fem_init demo_elements demo_quadrature (Coefficient 3) 1 0 1 1 0 ''bogus'' 2 None = Inr s"
    using fem_init_ex[of 2] by (simp del: One_nat_def) blast
  note f = fem_init_fields[OF s]
  have "rhs s 1 = Inl (ValueError (fem_source s @ '' is not a valid source type.''))"
    by (rule rhs_invalid_source) (simp_all add: f demo_elements_def Let_def)
  then show ?thesis using s f(1) by auto
qed

text \<open>
  C5. On a freshly constructed solver, before \<^verbatim>\<open>solve()\<close>, the call \<^verbatim>\<open>(x)\<close> and
  \<^verbatim>\<open>H1_error(u, u_x)\<close> do not raise: each prints the warning and returns \<^verbatim>\<open>None\<close>,
  whatever the arguments.
\<close>

theorem unsolved_warns:
  assumes "fem_init FEp quad f k a b ga gb src N Nq = Inr s"
  shows "fem_call s x = (None, [solve_first]) \<and> H1_error s u u_x = (Inr None, [solve_first])"
  using fem_init_fresh[OF assms] by (simp add: fem_call_def H1_error_def)

theorem unsolved_warns_witness:
  "\<exists>s. fem_init demo_elements demo_quadrature (Coefficient 3) 1 0 1 1 0 ''const'' 2 None = Inr s
       \<and> fem_call s (1 / 2) = (None, [solve_first])
       \<and> H1_error s (\<lambda>x. 0) (\<lambda>x. 0) = (Inr None, [solve_first])"
proof -
  obtain s where
    s: "fem_init demo_elements demo_quadrature (Coefficient 3) 1 0 1 1 0 ''const'' 2 None = Inr s"
    using fem_init_ex[of 2] by (simp del: One_nat_def) blast
  from unsolved_warns[OF s, of "1 / 2" "\<lambda>x. 0" "\<lambda>x. 0"] s show ?thesis by blast
qed

text \<open>
  C7. With source type \<^verbatim>\<open>'const'\<close> and the constant \<open>c\<close>, \<^verbatim>\<open>rhs(j)\<close> is
  \<open>h * c + ga * \<phi>\<^sub>j(a) + gb * \<phi>\<^sub>j(b)\<close> at the interior indices \<open>0 < j < N\<close>, and
  \<open>h * c / 2 + ga * \<phi>\<^sub>j(a) + gb * \<phi>\<^sub>j(b)\<close> at \<open>j = 0\<close> and \<open>j = N\<close>: no quadrature is
  involved.
\<close>

theorem rhs_const:
  assumes "fem_source s = ''const''" and "fem_f s = Coefficient c"
      and "length (fem_bases s) = fem_N s + 1" and "0 \<le> j" and "j \<le> int (fem_N s)"
  shows "(0 < j \<and> j < int (fem_N s) \<longrightarrow>
            rhs s j = Inr (of_real (fem_h s * c)
                           + fem_ga s * of_real (bas_eval (fem_bases s ! nat j) (fem_a s))
                           + fem_gb s * of_real (bas_eval (fem_bases s ! nat j) (fem_b s))))
       \<and> (j = 0 \<or> j = int (fem_N s) \<longrightarrow>
            rhs s j = Inr (of_real (fem_h s * c) / 2
                           + fem_ga s * of_real (bas_eval (fem_bases s ! nat j) (fem_a s))
                           + fem_gb s * of_real (bas_eval (fem_bases s ! nat j) (fem_b s))))"
  using assms unfolding rhs_def andthen_def getitem_def Let_def by (auto simp: mult.commute)

theorem rhs_const_witness:
  "\<exists>s. fem_init demo_elements demo_quadrature (Coefficient 3) 1 0 1 1 0 ''const'' 2 None = Inr s
       \<and> rhs s 1 = Inr (3 / 2) \<and> rhs s 0 = Inr (3 / 4 + 1) \<and> rhs s 2 = Inr (3 / 4)"
proof -
  obtain s where
    s: "fem_init demo_elements demo_quadrature (Coefficient 3) 1 0 1 1 0 ''const'' 2 None = Inr s"
    using fem_init_ex[of 2] by (simp del: One_nat_def) blast
  note f = fem_init_fields[OF s]
  have b: "fem_bases s = fe_call (demo_elements 2 0 1)" by (simp add: f)
  have l: "length (fem_bases s) = fem_N s + 1" by (simp add: f demo_elements_def Let_def)
  have v: "bas_eval (fem_bases s ! 0) 0 = 1" "bas_eval (fem_bases s ! 0) 1 = 0"
          "bas_eval (fem_bases s ! 1) 0 = 0" "bas_eval (fem_bases s ! 1) 1 = 0"
          "bas_eval (fem_bases s ! 2) 0 = 0" "bas_eval (fem_bases s ! 2) 1 = 1"
    by (simp_all add: b demo_elements_def Let_def upt_rec)
  have "rhs s 1 = Inr (3 / 2)"
    using rhs_const[of s 3 1, OF f(1) f(3) l] v by (simp add: f)
  moreover have "rhs s 0 = Inr (3 / 4 + 1)"
    using rhs_const[of s 3 0, OF f(1) f(3) l] v by (simp add: f)
  moreover have "rhs s 2 = Inr (3 / 4)"
    using rhs_const[of s 3 2, OF f(1) f(3) l] v by (simp add: f)
  ultimately show ?thesis using s by blast
qed

section \<open>The exact solution: properties\<close>

lemma sin_one_ge_half: "1 / 2 \<le> sin (1::real)"
proof -
  have "sin (pi / 6) \<le> sin (1::real)"
    by (rule sin_monotone_2pi_le) (use pi_ge_two pi_less_4 in auto)
  then show ?thesis by (simp add: sin_30)
qed

lemma residual_far: "\<not> allclose (exp \<i>) 1"
proof -
  have "Im (exp \<i> - 1) = sin 1"
    using Im_exp[of \<i>] by simp
  then have "1 / 2 \<le> \<bar>Im (exp \<i> - 1)\<bar>" using sin_one_ge_half by linarith
  also have "\<dots> \<le> cmod (exp \<i> - 1)" by (rule abs_Im_le_cmod)
  finally show ?thesis unfolding allclose_def by simp
qed

text \<open>
  On the interval \<open>[-1, 1]\<close> the constructed solution satisfies both impedance conditions
  exactly, for every constant source and every \<open>k \<noteq> 0\<close>: the factor \<^verbatim>\<open>exp(1j * k)\<close> in
  \<^verbatim>\<open>w\<close>, \<^verbatim>\<open>w_x\<close>, \<^verbatim>\<open>uG\<close> and \<^verbatim>\<open>uG_x\<close> is the one that belongs to \<open>a = -1\<close> and \<open>b = 1\<close>.
\<close>

lemma verify_on_symmetric_interval:
  assumes "k \<noteq> 0"
  shows "verify (exact_init q (Coefficient c, fx) k (- 1) 1 ga gb (Some ''const'')) = Inr ()"
proof -
  define s where "s = exact_init q (Coefficient c, fx) k (- 1) 1 ga gb (Some ''const'')"
  define E where "E = cis k"
  define E' where "E' = cis (- k)"
  have EE: "E * E' = 1" unfolding E_def E'_def by (simp add: cis_mult)
  have ex1: "exp (\<i> * of_real k) = E" unfolding E_def by (simp add: cis_conv_exp)
  have ex2: "exp (- (\<i> * of_real k)) = E'" unfolding E'_def by (simp add: cis_conv_exp)
  have ck: "of_real (cos k) = (E + E') / 2" unfolding E_def E'_def by (simp add: complex_eq_iff)
  have sk: "of_real (sin k) = (E - E') / (2 * \<i>)"
    unfolding E_def E'_def by (simp add: complex_eq_iff)
  have kk: "(of_real k :: complex) \<noteq> 0" using assms by simp
  have f: "ex_a s = - 1" "ex_b s = 1" "ex_k s = k" "ex_ga s = ga" "ex_gb s = gb"
    by (simp_all add: s_def exact_init_def)
  have wa: "- ex_w_x s (- 1) - \<i> * of_real k * ex_w s (- 1) = ga"
  proof -
    have "- ex_w_x s (- 1) - \<i> * of_real k * ex_w s (- 1) = ga * (E * E')"
      using kk by (simp add: ex_w_def ex_w_x_def f ex1 ex2 field_simps)
    then show ?thesis by (simp add: EE)
  qed
  have wb: "ex_w_x s 1 - \<i> * of_real k * ex_w s 1 = gb"
  proof -
    have "ex_w_x s 1 - \<i> * of_real k * ex_w s 1 = gb * (E * E')"
      using kk by (simp add: ex_w_def ex_w_x_def f ex1 ex2 field_simps)
    then show ?thesis by (simp add: EE)
  qed
  have ga0: "- (- of_real c / of_real k * (E * of_real (sin (- k))))
         - \<i> * of_real k * (- of_real c / of_real (k\<^sup>2) * (1 - E * of_real (cos (- k)))) = 0"
  proof -
    have "- (- of_real c / of_real k * (E * of_real (sin (- k))))
         - \<i> * of_real k * (- of_real c / of_real (k\<^sup>2) * (1 - E * of_real (cos (- k))))
         = of_real c / of_real k * \<i> * (1 - E * E')"
      using kk by (simp add: ck sk power2_eq_square field_simps)
    then show ?thesis by (simp add: EE)
  qed
  have gb0: "(- of_real c / of_real k * (E * of_real (sin k)))
         - \<i> * of_real k * (- of_real c / of_real (k\<^sup>2) * (1 - E * of_real (cos k))) = 0"
  proof -
    have "(- of_real c / of_real k * (E * of_real (sin k)))
         - \<i> * of_real k * (- of_real c / of_real (k\<^sup>2) * (1 - E * of_real (cos k)))
         = of_real c / of_real k * \<i> * (1 - E * E')"
      using kk by (simp add: ck sk power2_eq_square field_simps)
    then show ?thesis by (simp add: EE)
  qed
  have uxa: "ex_u_x s (- 1)
             = Inr (- of_real c / of_real k * (E * of_real (sin (- k))) + ex_w_x s (- 1))"
    using assms by (simp add: ex_u_x_def ex_uG_x_def andthen_def s_def exact_init_def ex1)
  have ua: "ex_u s (- 1)
            = Inr (- of_real c / of_real (k\<^sup>2) * (1 - E * of_real (cos (- k))) + ex_w s (- 1))"
    using assms by (simp add: ex_u_def ex_uG_def andthen_def s_def exact_init_def ex1)
  have uxb: "ex_u_x s 1 = Inr (- of_real c / of_real k * (E * of_real (sin k)) + ex_w_x s 1)"
    using assms by (simp add: ex_u_x_def ex_uG_x_def andthen_def s_def exact_init_def ex1)
  have ub: "ex_u s 1 = Inr (- of_real c / of_real (k\<^sup>2) * (1 - E * of_real (cos k)) + ex_w s 1)"
    using assms by (simp add: ex_u_def ex_uG_def andthen_def s_def exact_init_def ex1)
  have ra: "- (- of_real c / of_real k * (E * of_real (sin (- k))) + ex_w_x s (- 1))
            - \<i> * of_real k
              * (- of_real c / of_real (k\<^sup>2) * (1 - E * of_real (cos (- k))) + ex_w s (- 1)) = ga"
    using wa ga0 by (simp add: algebra_simps)
  have rb: "(- of_real c / of_real k * (E * of_real (sin k)) + ex_w_x s 1)
            - \<i> * of_real k
              * (- of_real c / of_real (k\<^sup>2) * (1 - E * of_real (cos k)) + ex_w s 1) = gb"
    using wb gb0 by (simp add: algebra_simps)
  have ac: "allclose z z" for z by (simp add: allclose_def)
  have "verify s = Inr ()"
    unfolding verify_def f uxa ua uxb ub andthen_def
    by (simp only: sum.case ra rb ac not_True_eq_False if_False)
  then show ?thesis unfolding s_def .
qed

text \<open>
  C2. The claim fails on the interval \<open>[0, 1]\<close>: with \<open>k = 1\<close>, \<open>ga = 1\<close>, \<open>gb = 0\<close> and the
  constant source \<open>0\<close>, the left boundary residual \<open>-u_x(a) - i k u(a)\<close> is \<open>exp(i)\<close>, at
  distance at least \<open>1/2\<close> from \<open>ga = 1\<close>, and \<^verbatim>\<open>verify()\<close> raises its assertion.
\<close>

theorem verify_fails_on_unit_interval:
  "verify (exact_init q (Coefficient 0, Coefficient 0) 1 0 1 1 0 (Some ''const''))
   = Inl AssertionError"
proof -
  define s where "s = exact_init q (Coefficient 0, Coefficient 0) 1 0 1 1 0 (Some ''const'')"
  have f: "ex_a s = 0" "ex_k s = 1" "ex_ga s = 1"
    by (simp_all add: s_def exact_init_def)
  have ux: "ex_u_x s 0 = Inr (- exp \<i> / 2)"
    by (simp add: ex_u_x_def ex_uG_x_def ex_w_x_def s_def exact_init_def andthen_def)
  have uu: "ex_u s 0 = Inr (- exp \<i> / (2 * \<i>))"
    by (simp add: ex_u_def ex_uG_def ex_w_def s_def exact_init_def andthen_def)
  have "- (- exp \<i> / 2) - \<i> * of_real 1 * (- exp \<i> / (2 * \<i>)) = exp \<i>"
    by (simp add: field_simps)
  then have "verify s = Inl AssertionError"
    using residual_far
    by (simp add: verify_def f ux uu andthen_def)
  then show ?thesis unfolding s_def .
qed

section \<open>The variational solver: properties\<close>

lemma demo_vpinn_init:
  "vpinn_init demo_torch (\<lambda>x. 1) 1 0 1 0 0 [1, 10, 2] None 1 None 0 = Inr (demo_vpinn, 1)"
  by (simp add: vpinn_init_def demo_torch_def demo_quadrature_def demo_vpinn_def getitem_def
        andthen_def Let_def)

lemma str_int_3: "str_int 3 = ''3''"
  by (simp add: str_int_def)

lemma autograd_grad_cases:
  "(\<exists>r. autograd_grad g rg x = Inr r) \<or> autograd_grad g rg x = Inl RuntimeError"
  by (simp add: autograd_grad_def)

lemma deriv_cases:
  assumes "n \<in> {0, 1, 2}"
  shows "(\<exists>r. deriv T s n x rg = Inr r) \<or> deriv T s n x rg = Inl RuntimeError"
proof -
  consider "n = 0" | "n = 1" | "n = 2" using assms by auto
  then show ?thesis
  proof cases
    case 1
    then show ?thesis by (simp add: deriv_def Let_def andthen_def)
  next
    case 2
    with autograd_grad_cases[of "grad_x T (vp_lins s)" rg x] show ?thesis
      by (auto simp: deriv_def Let_def andthen_def)
  next
    case 3
    with autograd_grad_cases[of "grad_x T (vp_lins s)" rg x]
      autograd_grad_cases[of "grad_xx T (vp_lins s)" rg x] show ?thesis
      by (auto simp: deriv_def Let_def andthen_def)
  qed
qed

text \<open>
  C6. \<^verbatim>\<open>deriv(n, x)\<close> raises the \<^verbatim>\<open>ValueError\<close> for every order \<open>n\<close> outside \<open>{0, 1, 2}\<close>. For
  the orders 0, 1 and 2 it raises no \<^verbatim>\<open>ValueError\<close>: it returns, or automatic
  differentiation raises its \<^verbatim>\<open>RuntimeError\<close>; order 0 always returns.
\<close>

theorem deriv_order:
  "(n \<notin> {0, 1, 2} \<longrightarrow>
      deriv T s n x rg = Inl (ValueError (''n = '' @ str_int n @ '' is not a valid derivative.'')))
   \<and> (n \<in> {0, 1, 2} \<longrightarrow>
        (\<forall>m. deriv T s n x rg \<noteq> Inl (ValueError m))
        \<and> ((\<exists>r. deriv T s n x rg = Inr r) \<or> deriv T s n x rg = Inl RuntimeError))
   \<and> (n = 0 \<longrightarrow> (\<exists>r. deriv T s n x rg = Inr r))"
proof (intro conjI impI)
  assume "n \<notin> {0, 1, 2}"
  then show "deriv T s n x rg
             = Inl (ValueError (''n = '' @ str_int n @ '' is not a valid derivative.''))"
    by (simp add: deriv_def)
next
  assume n: "n \<in> {0, 1, 2}"
  from deriv_cases[OF n, of T s x rg]
  show "\<forall>m. deriv T s n x rg \<noteq> Inl (ValueError m)" by auto
  from deriv_cases[OF n, of T s x rg]
  show "(\<exists>r. deriv T s n x rg = Inr r) \<or> deriv T s n x rg = Inl RuntimeError" .
next
  assume "n = 0"
  then show "\<exists>r. deriv T s n x rg = Inr r" by (simp add: deriv_def Let_def andthen_def)
qed

theorem deriv_order_witness:
  "deriv demo_torch demo_vpinn 3 [0] True = Inl (ValueError ''n = 3 is not a valid derivative.'')
   \<and> deriv demo_torch demo_vpinn 0 [1] True = Inr ([1], [2])
   \<and> deriv demo_torch demo_vpinn 1 [1] True = Inr ([1], [2])
   \<and> deriv demo_torch demo_vpinn 2 [1] True = Inl RuntimeError
   \<and> deriv demo_torch demo_vpinn 2 [1] True \<noteq> Inl (ValueError ''n = 2 is not a valid derivative.'')
   \<and> deriv demo_torch demo_vpinn 1 [1] False = Inl RuntimeError"
proof -
  have a: "deriv demo_torch demo_vpinn 3 [0] True
           = Inl (ValueError ''n = 3 is not a valid derivative.'')"
    using deriv_order[of 3 demo_torch demo_vpinn "[0]" True] by (simp add: str_int_3)
  have b: "deriv demo_torch demo_vpinn 2 [1] True
           \<noteq> Inl (ValueError ''n = 2 is not a valid derivative.'')"
    using deriv_order[of 2 demo_torch demo_vpinn "[1]" True] by simp
  have c: "deriv demo_torch demo_vpinn 0 [1] True = Inr ([1], [2])"
    "deriv demo_torch demo_vpinn 1 [1] True = Inr ([1], [2])"
    "deriv demo_torch demo_vpinn 2 [1] True = Inl RuntimeError"
    "deriv demo_torch demo_vpinn 1 [1] False = Inl RuntimeError"
    by (simp_all add: deriv_def autograd_grad_def andthen_def Let_def demo_torch_def demo_vpinn_def)
  show ?thesis using a b c by simp
qed

text \<open>Sums of products of non-negative numbers are non-negative.\<close>

lemma sum_list_map2_nonneg:
  "(\<forall>y\<in>set ys. (0::real) \<le> y) \<Longrightarrow> (\<forall>z\<in>set zs. 0 \<le> z)
   \<Longrightarrow> 0 \<le> sum_list (map2 (\<lambda>y z. y * z) ys zs)"
proof (induction ys arbitrary: zs)
  case Nil then show ?case by simp
next
  case (Cons y ys)
  then show ?case by (cases zs) auto
qed

lemma sum_product_nonneg:
  assumes "\<forall>y\<in>set ys. 0 \<le> y" and "\<forall>z\<in>set zs. 0 \<le> z" and "sum_product ys zs = Inr t"
  shows "0 \<le> t"
proof -
  have h: "0 \<le> hd ys" if "length ys = 1" using that assms(1) by (cases ys) auto
  have g: "0 \<le> hd zs" if "length zs = 1" using that assms(2) by (cases zs) auto
  show ?thesis
    using assms sum_list_map2_nonneg[OF assms(1,2)] h g
    unfolding sum_product_def
    by (auto split: if_splits intro!: sum_list_nonneg)
qed

lemma tsum_product_flat_nonneg:
  assumes "\<forall>y\<in>set ys. 0 \<le> y" and "\<forall>z\<in>set zs. 0 \<le> z" and "tsum_product (Flat ys) zs = Inr t"
  shows "0 \<le> t"
  using assms unfolding tsum_product_def by (auto intro!: sum_list_nonneg)

lemma intg_nonneg:
  assumes "fem_a s \<le> fem_b s" and "\<forall>z\<in>set (fem_weights s). 0 \<le> z" and "\<forall>x. 0 \<le> func x"
      and "intg s func = Inr t"
  shows "0 \<le> t"
proof -
  from assms(4) obtain v where v: "sum_product (map func (fem_roots s)) (fem_weights s) = Inr v"
    and t: "t = (fem_b s - fem_a s) * v / 2"
    unfolding intg_def andthen_def by (auto split: sum.splits)
  have "0 \<le> v" by (rule sum_product_nonneg[OF _ assms(2) v]) (use assms(3) in auto)
  then have "0 \<le> (fem_b s - fem_a s) * v" using assms(1) by simp
  then show ?thesis unfolding t by simp
qed

lemma np_sqrt_nonneg: "0 \<le> v \<Longrightarrow> np_sqrt v = Float (sqrt v)"
  by (simp add: np_sqrt_def)

lemma fem_H1_error_triple:
  assumes "fem_sol s" and "fem_a s \<le> fem_b s" and "\<forall>z\<in>set (fem_weights s). 0 \<le> z"
      and "H1_error s ue ue_x = (Inr r, out)"
  shows "\<exists>eu ed. 0 \<le> eu \<and> 0 \<le> ed \<and> r = Some (Float (eu + ed), Float eu, Float ed)"
proof -
  let ?u2 = "\<lambda>x. (cmod (ue x - sol s x))\<^sup>2"
  let ?ux2 = "\<lambda>x. (cmod (ue_x x - der s x))\<^sup>2"
  from assms(1,4) obtain iu iux where iu: "intg s ?u2 = Inr iu" and iux: "intg s ?ux2 = Inr iux"
    and r: "r = Some (fadd (np_sqrt iu) (np_sqrt iux), np_sqrt iu, np_sqrt iux)"
    unfolding H1_error_def Let_def andthen_def by (auto split: sum.splits)
  have "0 \<le> iu" by (rule intg_nonneg[OF assms(2,3) _ iu]) simp
  moreover have "0 \<le> iux" by (rule intg_nonneg[OF assms(2,3) _ iux]) simp
  ultimately show ?thesis using r by (auto simp: np_sqrt_nonneg)
qed

lemma vp_intg_flat_nonneg:
  assumes "\<forall>z\<in>set (snd (vp_quadpoints s)). 0 \<le> z"
      and "hd (fst (vp_quadpoints s)) \<le> last (fst (vp_quadpoints s))"
      and "\<And>x ys. func x = Inr (Flat ys) \<Longrightarrow> \<forall>y\<in>set ys. 0 \<le> y"
      and "\<And>x t. func x = Inr t \<Longrightarrow> \<exists>ys. t = Flat ys"
      and "vp_intg s func None = Inr t"
  shows "0 \<le> t"
proof -
  let ?roots = "fst (vp_quadpoints s)"
  from assms(5) obtain rl r0 tt v where rl: "getitem ?roots (- 1) = Inr rl"
    and r0: "getitem ?roots 0 = Inr r0"
    and f: "func ?roots = Inr tt" and tv: "tsum_product tt (snd (vp_quadpoints s)) = Inr v"
    and t: "t = (rl - r0) * v / 2"
    unfolding vp_intg_def Let_def andthen_def by (auto split: sum.splits)
  have ne: "?roots \<noteq> []" using r0 by (auto simp: getitem_def split: if_splits)
  have "rl = last ?roots" using rl ne
    by (auto simp: getitem_def last_conv_nth nat_diff_distrib' split: if_splits)
  moreover have "r0 = hd ?roots"
    using r0 ne by (auto simp: getitem_def hd_conv_nth split: if_splits)
  ultimately have d: "0 \<le> rl - r0" using assms(2) by simp
  from assms(4)[OF f] obtain ys where tt: "tt = Flat ys" by blast
  have "0 \<le> v"
    by (rule tsum_product_flat_nonneg[OF assms(3)[OF f[unfolded tt]] assms(1) tv[unfolded tt]])
  then have "0 \<le> (rl - r0) * v" using d by simp
  then show ?thesis unfolding t by simp
qed

lemma vp_H1_error_triple:
  assumes "\<forall>z\<in>set (snd (vp_quadpoints s)). 0 \<le> z"
      and "hd (fst (vp_quadpoints s)) \<le> last (fst (vp_quadpoints s))"
      and "fst (vp_H1_error T s ue ue_x) = Inr r"
  shows "\<exists>eu ed. 0 \<le> eu \<and> 0 \<le> ed \<and> r = (Float (eu + ed), Float eu, Float ed)"
proof -
  define s1 where "s1 = s\<lparr>vp_training := False\<rparr>"
  define u2 :: "real list \<Rightarrow> error + tensor" where
    "u2 = (\<lambda>x. Inr (Flat (map2 (\<lambda>e m. (fst e - fst m)\<^sup>2 + (snd e - snd m)\<^sup>2)
                        (map (\<lambda>r. (Re (ue r), Im (ue r))) x) (map (forward T (vp_lins s)) x))))"
  define ux2 :: "real list \<Rightarrow> error + tensor" where
    "ux2 = (\<lambda>x. andthen (andthen (deriv T s 1 x True) (\<lambda>d.
                Inr (map2 (\<lambda>e m. (fst e - m)\<^sup>2) (map (\<lambda>r. (Re (ue_x r), Im (ue_x r))) x) (fst d))))
            (\<lambda>re. andthen (andthen (deriv T s 1 x True) (\<lambda>d.
                Inr (map2 (\<lambda>e m. (snd e - m)\<^sup>2) (map (\<lambda>r. (Re (ue_x r), Im (ue_x r))) x) (snd d))))
            (\<lambda>im. Inr (Flat (map2 (\<lambda>p q. p + q) re im)))))"
  have q: "vp_quadpoints s1 = vp_quadpoints s" by (simp add: s1_def)
  from assms(3) obtain iu iux where iu: "vp_intg s1 u2 None = Inr iu"
    and iux: "vp_intg s1 ux2 None = Inr iux"
    and r: "r = (fadd (np_sqrt iu) (np_sqrt iux), np_sqrt iu, np_sqrt iux)"
    unfolding vp_H1_error_def Let_def andthen_def s1_def u2_def ux2_def
    by (auto simp: andthen_def split: sum.splits)
  have "0 \<le> iu"
  proof (rule vp_intg_flat_nonneg[OF _ _ _ _ iu])
    show "\<forall>z\<in>set (snd (vp_quadpoints s1)). 0 \<le> z" using assms(1) q by simp
    show "hd (fst (vp_quadpoints s1)) \<le> last (fst (vp_quadpoints s1))" using assms(2) q by simp
    show "\<forall>y\<in>set ys. 0 \<le> y" if "u2 x = Inr (Flat ys)" for x ys
      using that unfolding u2_def by (auto simp: set_zip)
    show "\<exists>ys. t = Flat ys" if "u2 x = Inr t" for x t using that unfolding u2_def by auto
  qed
  moreover have "0 \<le> iux"
  proof (rule vp_intg_flat_nonneg[OF _ _ _ _ iux])
    show "\<forall>z\<in>set (snd (vp_quadpoints s1)). 0 \<le> z" using assms(1) q by simp
    show "hd (fst (vp_quadpoints s1)) \<le> last (fst (vp_quadpoints s1))" using assms(2) q by simp
    show "\<forall>y\<in>set ys. 0 \<le> y" if "ux2 x = Inr (Flat ys)" for x ys
      using that unfolding ux2_def andthen_def by (auto simp: set_zip split: sum.splits)
    show "\<exists>ys. t = Flat ys" if "ux2 x = Inr t" for x t
      using that unfolding ux2_def andthen_def by (auto split: sum.splits)
  qed
  ultimately show ?thesis using r by (auto simp: np_sqrt_nonneg)
qed

text \<open>Both error methods return when the quadrature rule has as many weights as nodes.\<close>

lemma sum_product_returns: "length ys = length zs \<Longrightarrow> \<exists>t. sum_product ys zs = Inr t"
  by (simp add: sum_product_def)

lemma intg_returns:
  assumes "length (fem_roots s) = length (fem_weights s)"
  shows "\<exists>t. intg s func = Inr t"
proof -
  from sum_product_returns[of "map func (fem_roots s)" "fem_weights s"] assms
  obtain v where "sum_product (map func (fem_roots s)) (fem_weights s) = Inr v" by auto
  then have "intg s func = Inr ((fem_b s - fem_a s) * v / 2)"
    by (simp add: intg_def andthen_def)
  then show ?thesis by blast
qed

lemma fem_H1_error_returns:
  assumes "fem_sol s" and "length (fem_roots s) = length (fem_weights s)"
  shows "\<exists>r. H1_error s ue ue_x = (Inr (Some r), [])"
proof -
  from intg_returns[OF assms(2)] obtain iu where
    iu: "intg s (\<lambda>x. (cmod (ue x - sol s x))\<^sup>2) = Inr iu" by blast
  from intg_returns[OF assms(2)] obtain iux where
    iux: "intg s (\<lambda>x. (cmod (ue_x x - der s x))\<^sup>2) = Inr iux" by blast
  show ?thesis using assms(1) by (simp add: H1_error_def Let_def andthen_def iu iux)
qed

text \<open>\<^verbatim>\<open>solve\<close> changes the arrays \<open>A\<close>, \<open>d\<close>, \<open>c\<close> and the solution only.\<close>

lemma solve_step_keeps:
  assumes "solve_step s i = Inr s'"
  shows "fem_a s' = fem_a s \<and> fem_b s' = fem_b s \<and> fem_roots s' = fem_roots s
         \<and> fem_weights s' = fem_weights s"
proof -
  define K where "K q \<longleftrightarrow> fem_a q = fem_a s \<and> fem_b q = fem_b s \<and> fem_roots q = fem_roots s
         \<and> fem_weights q = fem_weights s" for q :: fem
  have step: "K (setA q m n z)" if "K q" for q m n z
    using that unfolding K_def setA_def by simp
  from assms obtain r where r: "rhs s (int i) = Inr r"
    unfolding solve_step_def andthen_def by (auto split: sum.splits)
  define s1 where "s1 = s\<lparr>fem_d := (fem_d s)[i := r]\<rparr>"
  have K1: "K s1" unfolding K_def s1_def by simp
  from assms r obtain v where v: "lhs s1 (int i) (int i) = Inr v"
    unfolding solve_step_def andthen_def s1_def Let_def by (auto split: sum.splits)
  define s2 where "s2 = setA s1 i i v"
  have K2: "K s2" unfolding s2_def by (rule step[OF K1])
  from assms r v obtain s3 where
    s3: "(if i \<noteq> 0
              then andthen (lhs s2 (int i) (int i - 1)) (\<lambda>v. Inr (setA s2 i (i - 1) v))
              else Inr s2) = Inr s3"
    and fin: "(if i \<noteq> fem_N s3
     then andthen (lhs s3 (int i) (int i + 1)) (\<lambda>v. Inr (setA s3 i (i + 1) v))
     else Inr s3) = Inr s'"
    unfolding solve_step_def s1_def s2_def Let_def
    by (simp add: andthen_def split: sum.splits)
  have K3: "K s3"
  proof (cases "i = 0")
    case True then show ?thesis using s3 K2 by simp
  next
    case False
    then obtain z where "s3 = setA s2 i (i - 1) z"
      using s3 by (auto simp: andthen_def split: sum.splits)
    then show ?thesis using step[OF K2] by simp
  qed
  have "K s'"
  proof (cases "i = fem_N s3")
    case True then show ?thesis using fin K3 by simp
  next
    case False
    then obtain z where "s' = setA s3 i (i + 1) z"
      using fin by (auto simp: andthen_def split: sum.splits)
    then show ?thesis using step[OF K3] by simp
  qed
  then show ?thesis unfolding K_def .
qed

lemma solve_loop_keeps:
  "solve_loop s is = Inr s' \<Longrightarrow>
   fem_a s' = fem_a s \<and> fem_b s' = fem_b s \<and> fem_roots s' = fem_roots s
   \<and> fem_weights s' = fem_weights s"
proof (induction "is" arbitrary: s)
  case Nil then show ?case by simp
next
  case (Cons i rest)
  from Cons.prems obtain s1 where s1: "solve_step s i = Inr s1"
    and r: "solve_loop s1 rest = Inr s'"
    by (auto split: sum.splits)
  from solve_step_keeps[OF s1] Cons.IH[OF r] show ?case by simp
qed

lemma solve_keeps:
  assumes "solve ls s = Inr s'"
  shows "fem_a s' = fem_a s" "fem_b s' = fem_b s" "fem_roots s' = fem_roots s"
        "fem_weights s' = fem_weights s"
proof -
  from assms obtain s1 c where l: "solve_loop s [0..<fem_N s + 1] = Inr s1"
    and e: "s' = s1\<lparr>fem_c := Some c, fem_sol := True\<rparr>"
    unfolding solve_def andthen_def by (auto split: sum.splits)
  from solve_loop_keeps[OF l] e
  show "fem_a s' = fem_a s" "fem_b s' = fem_b s" "fem_roots s' = fem_roots s"
        "fem_weights s' = fem_weights s" by simp_all
qed

text \<open>
  The finite element solver returns the quadrature norms: the weighted sum over the
  nodes of the squared error, scaled by half the length of the interval.
\<close>

lemma intg_value:
  assumes "length (fem_roots s) = length (fem_weights s)"
  shows "intg s func
         = Inr ((fem_b s - fem_a s)
                * sum_list (map2 (\<lambda>r z. func r * z) (fem_roots s) (fem_weights s)) / 2)"
proof -
  have "map2 (\<lambda>y z. y * z) (map func (fem_roots s)) (fem_weights s)
        = map2 (\<lambda>r z. func r * z) (fem_roots s) (fem_weights s)"
    by (simp add: zip_map1 case_prod_unfold)
  then show ?thesis using assms by (simp add: intg_def sum_product_def andthen_def)
qed

lemma fem_H1_error_value:
  assumes "fem_sol s" and "length (fem_roots s) = length (fem_weights s)"
      and "fem_a s \<le> fem_b s" and "\<forall>z\<in>set (fem_weights s). 0 \<le> z"
      and "eu = sqrt ((fem_b s - fem_a s)
                * sum_list (map2 (\<lambda>r z. (cmod (ue r - sol s r))\<^sup>2 * z) (fem_roots s) (fem_weights s))
                / 2)"
      and "ed = sqrt ((fem_b s - fem_a s)
                * sum_list (map2 (\<lambda>r z. (cmod (ue_x r - der s r))\<^sup>2 * z) (fem_roots s) (fem_weights s))
                / 2)"
  shows "H1_error s ue ue_x = (Inr (Some (Float (eu + ed), Float eu, Float ed)), [])"
proof -
  let ?u2 = "\<lambda>x. (cmod (ue x - sol s x))\<^sup>2"
  let ?ux2 = "\<lambda>x. (cmod (ue_x x - der s x))\<^sup>2"
  note iu = intg_value[OF assms(2), of ?u2] and iux = intg_value[OF assms(2), of ?ux2]
  have "0 \<le> (fem_b s - fem_a s)
            * sum_list (map2 (\<lambda>r z. ?u2 r * z) (fem_roots s) (fem_weights s)) / 2"
    by (rule intg_nonneg[OF assms(3,4) _ iu]) simp
  then have su: "np_sqrt ((fem_b s - fem_a s)
            * sum_list (map2 (\<lambda>r z. ?u2 r * z) (fem_roots s) (fem_weights s)) / 2) = Float eu"
    unfolding assms(5) by (rule np_sqrt_nonneg)
  have "0 \<le> (fem_b s - fem_a s)
            * sum_list (map2 (\<lambda>r z. ?ux2 r * z) (fem_roots s) (fem_weights s)) / 2"
    by (rule intg_nonneg[OF assms(3,4) _ iux]) simp
  then have sd: "np_sqrt ((fem_b s - fem_a s)
            * sum_list (map2 (\<lambda>r z. ?ux2 r * z) (fem_roots s) (fem_weights s)) / 2) = Float ed"
    unfolding assms(6) by (rule np_sqrt_nonneg)
  show ?thesis
    using assms(1) by (simp add: H1_error_def Let_def andthen_def iu iux su sd)
qed

text \<open>
  The variational solver multiplies a flat integrand of shape \<^verbatim>\<open>(M,)\<close> by the weight column
  of shape \<^verbatim>\<open>(M, 1)\<close>: the sum runs over every product of a value with a weight, which is
  the sum of the values times the sum of the weights.
\<close>

lemma tsum_product_flat: "tsum_product (Flat ys) zs = Inr (sum_list ys * sum_list zs)"
proof -
  have "sum_list (map (\<lambda>y. y * z) ys) = sum_list ys * z" for z :: real
    by (induction ys) (simp_all add: algebra_simps)
  then have "sum_list (map (\<lambda>z. sum_list (map (\<lambda>y. y * z) ys)) zs)
             = sum_list (map (\<lambda>z. sum_list ys * z) zs)" by simp
  also have "\<dots> = sum_list ys * sum_list zs" by (induction zs) (simp_all add: algebra_simps)
  finally show ?thesis by (simp add: tsum_product_def)
qed

text \<open>
  C8. \<^verbatim>\<open>H1_error\<close> of the variational solver returns \<open>(err_u + err_u_x, err_u, err_u_x)\<close>,
  but its two components are not the \<open>L\<^sup>2\<close> norms of the errors. On the demo instance
  (nodes \<open>0, 1\<close> with weights \<open>1, 1\<close>, module \<open>x \<mapsto> (x, 2 x)\<close>, exact solution \<open>0\<close>) the squared
  error of the solution is \<open>0\<close> and \<open>5\<close> at the nodes and that of the derivative is \<open>5\<close> at
  both: the \<open>L\<^sup>2\<close> norms by the quadrature rule are \<open>\<surd>(5/2)\<close> and \<open>\<surd>5\<close>, and the method
  returns \<open>\<surd>5\<close> and \<open>\<surd>10\<close>.
\<close>

theorem vp_H1_error_not_l2_norm:
  "fst (vp_H1_error demo_torch demo_vpinn (\<lambda>x. 0) (\<lambda>x. 0))
     = Inr (Float (sqrt 5 + sqrt 10), Float (sqrt 5), Float (sqrt 10))
   \<and> l2_norm (vp_quadpoints demo_vpinn)
        (\<lambda>r. (0 - fst (forward demo_torch (vp_lins demo_vpinn) r))\<^sup>2
             + (0 - snd (forward demo_torch (vp_lins demo_vpinn) r))\<^sup>2) = sqrt (5 / 2)
   \<and> l2_norm (vp_quadpoints demo_vpinn)
        (\<lambda>r. (0 - fst (the (grad_x demo_torch (vp_lins demo_vpinn) r)))\<^sup>2
             + (0 - snd (the (grad_x demo_torch (vp_lins demo_vpinn) r)))\<^sup>2) = sqrt 5
   \<and> sqrt 5 \<noteq> sqrt (5 / 2) \<and> sqrt 10 \<noteq> sqrt 5"
  by (simp add: vp_H1_error_def vp_intg_def getitem_def andthen_def Let_def tsum_product_def
        deriv_def autograd_grad_def np_sqrt_def l2_norm_def demo_torch_def demo_vpinn_def)

text \<open>
  C9. A penalty of \<open>0\<close> and a seed of \<open>0\<close> are treated as absent: the constructor returns
  the same solver and the same generator state as for \<^verbatim>\<open>None\<close>, and the loss of an epoch
  of a solver constructed with penalty \<open>0\<close> is the sum over the test functions alone.
\<close>

theorem zero_options_are_absent:
  "vpinn_init T f k a b ga gb layers (Some 0) quad_N seed g
     = vpinn_init T f k a b ga gb layers None quad_N seed g
   \<and> vpinn_init T f k a b ga gb layers penalty quad_N (Some 0) g
     = vpinn_init T f k a b ga gb layers penalty quad_N None g
   \<and> (\<forall>s g'. vpinn_init T f k a b ga gb layers (Some 0) quad_N seed g = Inr (s, g') \<longrightarrow>
        vp_penalty s = None
        \<and> epoch_loss T lv s tfs = loss_sum (lv s) (length tfs) tfs IntZero)"
proof -
  have "epoch_loss T lv s tfs = loss_sum (lv s) (length tfs) tfs IntZero"
    if "vp_penalty s = None" for s :: "'a vpinn"
    using that
    by (cases "loss_sum (lv s) (length tfs) tfs IntZero") (simp_all add: epoch_loss_def andthen_def)
  moreover have "vp_penalty s = None"
    if "vpinn_init T f k a b ga gb layers (Some 0) quad_N seed g = Inr (s, g')" for s g'
    using that by (auto simp: vpinn_init_def andthen_def Let_def split: sum.splits if_splits)
  ultimately show ?thesis
    by (simp add: vpinn_init_def)
qed

theorem zero_options_are_absent_witness:
  "vpinn_init demo_torch (\<lambda>x. 1) 1 0 1 0 0 [1, 10, 2] (Some 0) 1 (Some 0) 0 = Inr (demo_vpinn, 1)
   \<and> vp_penalty demo_vpinn = None
   \<and> epoch_loss demo_torch (loss_v demo_torch) demo_vpinn
        (give_quadpoints demo_torch demo_vpinn [demo_testfunction])
      = loss_sum (loss_v demo_torch demo_vpinn) 1
          (give_quadpoints demo_torch demo_vpinn [demo_testfunction]) IntZero"
proof -
  let ?tfs = "give_quadpoints demo_torch demo_vpinn [demo_testfunction]"
  let ?lv = "loss_v demo_torch"
  note z = zero_options_are_absent[where T = demo_torch and f = "\<lambda>x. 1" and k = 1 and a = 0
      and b = 1 and ga = 0 and gb = 0 and layers = "[1, 10, 2]" and quad_N = 1 and g = 0
      and lv = ?lv and tfs = ?tfs]
  have p: "vpinn_init demo_torch (\<lambda>x. 1) 1 0 1 0 0 [1, 10, 2] (Some 0) 1 (Some 0) 0
           = vpinn_init demo_torch (\<lambda>x. 1) 1 0 1 0 0 [1, 10, 2] None 1 (Some 0) 0"
    using z[where seed = "Some 0" and penalty = None] by (rule conjunct1)
  have q: "vpinn_init demo_torch (\<lambda>x. 1) 1 0 1 0 0 [1, 10, 2] None 1 (Some 0) 0
           = vpinn_init demo_torch (\<lambda>x. 1) 1 0 1 0 0 [1, 10, 2] None 1 None 0"
    using z[where seed = None and penalty = None] by (rule conjunct2[THEN conjunct1])
  have i: "vpinn_init demo_torch (\<lambda>x. 1) 1 0 1 0 0 [1, 10, 2] (Some 0) 1 (Some 0) 0
           = Inr (demo_vpinn, 1)"
    unfolding p q by (rule demo_vpinn_init)
  have l: "length ?tfs = 1" by (simp add: give_quadpoints_def)
  have "\<forall>s g'. vpinn_init demo_torch (\<lambda>x. 1) 1 0 1 0 0 [1, 10, 2] (Some 0) 1 (Some 0) 0
                  = Inr (s, g') \<longrightarrow>
          vp_penalty s = None
          \<and> epoch_loss demo_torch ?lv s ?tfs = loss_sum (?lv s) (length ?tfs) ?tfs IntZero"
    using z[where seed = "Some 0" and penalty = None] by (rule conjunct2[THEN conjunct2])
  with i have "vp_penalty demo_vpinn = None
        \<and> epoch_loss demo_torch ?lv demo_vpinn ?tfs
           = loss_sum (?lv demo_vpinn) (length ?tfs) ?tfs IntZero"
    by blast
  then show ?thesis using i unfolding l by simp
qed

section \<open>Training: properties\<close>

text \<open>
  The loss of an epoch, the optimization step and the error of the variational solver
  read the problem and the parameters only; so does the residual of the base class.
\<close>

lemma deriv_cong:
  "vp_lins s = vp_lins s' \<Longrightarrow> deriv T s = deriv T s'"
  by (intro ext) (simp add: deriv_def)

lemma penalty_term_cong:
  assumes "vp_lins s = vp_lins s'" "problem s = problem s'"
  shows "penalty_term T s p = penalty_term T s' p"
  using assms deriv_cong[OF assms(1), of T]
  by (simp add: penalty_term_def u_re_def u_im_def u_x_re_def u_x_im_def problem_def)

lemma epoch_loss_cong:
  assumes "bookkeeping_free lv" "vp_lins s = vp_lins s'" "problem s = problem s'"
  shows "epoch_loss T lv s tfs = epoch_loss T lv s' tfs"
proof -
  have h1: "lv s = lv s'" using assms unfolding bookkeeping_free_def by blast
  have h2: "vp_penalty s = vp_penalty s'" using assms(3) by (simp add: problem_def)
  have h3: "penalty_term T s = penalty_term T s'"
    by (intro ext) (rule penalty_term_cong[OF assms(2,3)])
  show ?thesis unfolding epoch_loss_def h1 h2 h3 ..
qed

lemma loss_functional_cong:
  assumes "bookkeeping_free lv" "problem s = problem s'"
  shows "(\<lambda>p. epoch_loss T lv (s\<lparr>vp_lins := p\<rparr>) tfs) = (\<lambda>p. epoch_loss T lv (s'\<lparr>vp_lins := p\<rparr>) tfs)"
proof
  fix p
  show "epoch_loss T lv (s\<lparr>vp_lins := p\<rparr>) tfs = epoch_loss T lv (s'\<lparr>vp_lins := p\<rparr>) tfs"
    by (rule epoch_loss_cong[OF assms(1)]) (use assms(2) in \<open>simp_all add: problem_def\<close>)
qed

lemma optimization_step_cong:
  assumes "bookkeeping_free lv" "problem s = problem s'"
  shows "optimization_step T lv tfs s = optimization_step T lv tfs s'"
  by (intro ext) (simp add: optimization_step_def loss_functional_cong[OF assms])

lemma vp_H1_error_cong:
  assumes "vp_lins s = vp_lins s'" "problem s = problem s'"
  shows "fst (vp_H1_error T s u u_x) = fst (vp_H1_error T s' u u_x)"
  using assms deriv_cong[OF assms(1), of T]
  by (simp add: vp_H1_error_def vp_intg_def Let_def problem_def)

lemma vp_H1_error_state: "snd (vp_H1_error T s u u_x) = s\<lparr>vp_training := False\<rparr>"
  by (simp add: vp_H1_error_def Let_def)

lemma loss_v_bookkeeping_free: "bookkeeping_free (loss_v T)"
  unfolding bookkeeping_free_def
proof (intro allI impI ext)
  fix s s' :: "'a vpinn" and v q
  assume a: "vp_lins s = vp_lins s' \<and> problem s = problem s'"
  then have d: "deriv T s = deriv T s'" using deriv_cong by blast
  show "loss_v T s v q = loss_v T s' v q"
    using a d by (simp add: loss_v_def vp_intg_def u_re_def u_im_def u_x_re_def u_x_im_def problem_def)
qed



lemma train_epoch_elim:
  assumes "train_epoch T lv tfs fin exact e (s, opt, sch) = (None, st1)"
  obtains v s1 sc where "sch = Some sc" "epoch_loss T lv s tfs = Inr (Tensor v)"
    "(if e mod 10 = 0 \<or> e = fin then snapshot T s (Tensor v) exact e else (None, s)) = (None, s1)"
    "st1 = finish_epoch T lv tfs s1 opt sc"
  using assms unfolding train_epoch_def finish_epoch_def optimization_step_def Let_def
  by (auto split: sum.splits prod.splits option.splits loss_value.splits if_splits)

lemma train_epoch_intro:
  assumes "epoch_loss T lv s tfs = Inr (Tensor v)"
    "(if e mod 10 = 0 \<or> e = fin then snapshot T s (Tensor v) exact e else (None, s)) = (None, s1)"
  shows "train_epoch T lv tfs fin exact e (s, opt, Some sc) = (None, finish_epoch T lv tfs s1 opt sc)"
  using assms unfolding train_epoch_def finish_epoch_def optimization_step_def Let_def
  by (auto split: sum.splits prod.splits option.splits loss_value.splits if_splits)

lemma snapshot_ok:
  assumes "snapshot T s (Tensor v) exact e = (None, s1)"
  shows "vp_lins s1 = vp_lins s" "problem s1 = problem s" "vp_epoch s1 = vp_epoch s"
    "vp_history_epochs s1 = vp_history_epochs s @ [e]"
    "vp_history_losses s1 = vp_history_losses s @ [v]"
    "vp_history_errors s1 = None \<longleftrightarrow> vp_history_errors s = None"
  using assms unfolding snapshot_def Let_def problem_def
  by (auto simp: vp_H1_error_def Let_def split: option.splits prod.splits sum.splits)

lemma snapshot_transfer:
  assumes "snapshot T s (Tensor v) exact e = (None, s1)"
      and "vp_lins s = vp_lins s'" and "problem s = problem s'"
      and "vp_history_errors s = None \<longleftrightarrow> vp_history_errors s' = None"
  shows "\<exists>s1'. snapshot T s' (Tensor v) exact e = (None, s1')"
proof (cases exact)
  case None
  then show ?thesis by (simp add: snapshot_def Let_def)
next
  case (Some ex)
  define a where "a = s\<lparr>vp_history_epochs := vp_history_epochs s @ [e]\<rparr>"
  define a2 where "a2 = a\<lparr>vp_history_losses := vp_history_losses a @ [v]\<rparr>"
  define b where "b = s'\<lparr>vp_history_epochs := vp_history_epochs s' @ [e]\<rparr>"
  define b2 where "b2 = b\<lparr>vp_history_losses := vp_history_losses b @ [v]\<rparr>"
  have eq: "fst (vp_H1_error T a2 (fst ex) (snd ex)) = fst (vp_H1_error T b2 (fst ex) (snd ex))"
    by (rule vp_H1_error_cong) (use assms(2,3) in \<open>simp_all add: a2_def a_def b2_def b_def problem_def\<close>)
  have sa: "snapshot T s (Tensor v) exact e =
      (case vp_H1_error T a2 (fst ex) (snd ex) of
                  (Inl err, s3) \<Rightarrow> (Some err, s3)
                | (Inr err, s3) \<Rightarrow>
                    (case vp_history_errors s3 of
                       None \<Rightarrow> (Some TypeError, s3)
                     | Some h \<Rightarrow>
                         (None, s3\<lparr>vp_history_errors :=
                                     Some (fst h @ [fst err], fst (snd h) @ [fst (snd err)],
                                           snd (snd h) @ [snd (snd err)])\<rparr>)))"
    unfolding snapshot_def Let_def a2_def a_def Some by simp
  have sb: "snapshot T s' (Tensor v) exact e =
      (case vp_H1_error T b2 (fst ex) (snd ex) of
                  (Inl err, s3) \<Rightarrow> (Some err, s3)
                | (Inr err, s3) \<Rightarrow>
                    (case vp_history_errors s3 of
                       None \<Rightarrow> (Some TypeError, s3)
                     | Some h \<Rightarrow>
                         (None, s3\<lparr>vp_history_errors :=
                                     Some (fst h @ [fst err], fst (snd h) @ [fst (snd err)],
                                           snd (snd h) @ [snd (snd err)])\<rparr>)))"
    unfolding snapshot_def Let_def b2_def b_def Some by simp
  obtain ra where ra: "vp_H1_error T a2 (fst ex) (snd ex) = (ra, a2\<lparr>vp_training := False\<rparr>)"
    using vp_H1_error_state[of T a2] by (metis prod.collapse)
  obtain rb where rb: "vp_H1_error T b2 (fst ex) (snd ex) = (rb, b2\<lparr>vp_training := False\<rparr>)"
    using vp_H1_error_state[of T b2] by (metis prod.collapse)
  have rr: "ra = rb" using eq ra rb by simp
  from assms(1) obtain r h where "ra = Inr r" "vp_history_errors s = Some h"
    unfolding sa ra by (auto simp: a2_def a_def split: sum.splits option.splits)
  then obtain h' where "rb = Inr r" "vp_history_errors s' = Some h'"
    using rr assms(4) by auto
  then show ?thesis unfolding sb rb by (simp add: b2_def b_def)
qed



lemma finish_epoch_agree:
  assumes "bookkeeping_free lv" and "agree P (sa, opt, Some sc) (sb, opt, Some sc)"
  shows "agree P (finish_epoch T lv tfs sa opt sc) (finish_epoch T lv tfs sb opt sc)"
proof -
  have l: "vp_lins sa = vp_lins sb" and p: "problem sa = problem sb"
    using assms(2) by (simp_all add: agree_def)
  have o: "optimization_step T lv tfs sa = optimization_step T lv tfs sb"
    by (rule optimization_step_cong[OF assms(1) p])
  show ?thesis
    using assms(2) unfolding finish_epoch_def Let_def o l agree_def
    by (simp add: problem_def history_def)
qed

lemma epoch_agree:
  assumes bf: "bookkeeping_free lv" and ag: "agree P st st'"
      and run: "train_epoch T lv tfs fin1 exact e st = (None, st1)"
      and P: "P e \<longleftrightarrow> e mod 10 = 0 \<or> e = fin2"
      and compat: "P e \<longrightarrow> e mod 10 = 0 \<or> e = fin1"
  shows "\<exists>st1'. train_epoch T lv tfs fin2 exact e st' = (None, st1') \<and> agree P st1 st1'"
proof -
  obtain s opt sch where st: "st = (s, opt, sch)" by (cases st) auto
  obtain s' where st': "st' = (s', opt, sch)" using ag st by (cases st') (auto simp: agree_def)
  from run[unfolded st] obtain v sa sc where sch: "sch = Some sc"
    and loss: "epoch_loss T lv s tfs = Inr (Tensor v)"
    and snap: "(if e mod 10 = 0 \<or> e = fin1 then snapshot T s (Tensor v) exact e else (None, s)) = (None, sa)"
    and st1: "st1 = finish_epoch T lv tfs sa opt sc"
    by (rule train_epoch_elim)
  have l: "vp_lins s = vp_lins s'" and p: "problem s = problem s'"
    and n: "vp_history_errors s = None \<longleftrightarrow> vp_history_errors s' = None"
    using ag by (simp_all add: agree_def st st')
  have loss': "epoch_loss T lv s' tfs = Inr (Tensor v)"
    using epoch_loss_cong[OF bf l p, of T tfs] loss by simp
  have "\<exists>sb. (if e mod 10 = 0 \<or> e = fin2 then snapshot T s' (Tensor v) exact e else (None, s')) = (None, sb)
            \<and> agree P (sa, opt, Some sc) (sb, opt, Some sc)"
  proof (cases "P e")
    case True
    then have lg: "e mod 10 = 0 \<or> e = fin1" using compat by simp
    then have sn: "snapshot T s (Tensor v) exact e = (None, sa)" using snap by simp
    from snapshot_transfer[OF sn l p n] obtain sb where sb: "snapshot T s' (Tensor v) exact e = (None, sb)"
      by blast
    note a = snapshot_ok[OF sn] and b = snapshot_ok[OF sb]
    have "agree P (sa, opt, Some sc) (sb, opt, Some sc)"
      using ag True unfolding agree_def st st' history_def
      by (simp add: a b)
    then show ?thesis using sb True P by auto
  next
    case False
    then have nl: "\<not> (e mod 10 = 0 \<or> e = fin2)" using P by simp
    have "agree P (sa, opt, Some sc) (s', opt, Some sc)"
    proof (cases "e mod 10 = 0 \<or> e = fin1")
      case True
      then have sn: "snapshot T s (Tensor v) exact e = (None, sa)" using snap by simp
      note a = snapshot_ok[OF sn]
      show ?thesis
        using ag False unfolding agree_def st st' history_def
        by (simp add: a)
    next
      case False
      then have "sa = s" using snap by simp
      then show ?thesis using ag unfolding agree_def st st' sch by simp
    qed
    then show ?thesis using nl by auto
  qed
  then obtain sb where
    snb: "(if e mod 10 = 0 \<or> e = fin2 then snapshot T s' (Tensor v) exact e else (None, s')) = (None, sb)"
    and agb: "agree P (sa, opt, Some sc) (sb, opt, Some sc)" by blast
  have "train_epoch T lv tfs fin2 exact e st' = (None, finish_epoch T lv tfs sb opt sc)"
    unfolding st' sch by (rule train_epoch_intro[OF loss' snb])
  moreover have "agree P st1 (finish_epoch T lv tfs sb opt sc)"
    unfolding st1 by (rule finish_epoch_agree[OF bf agb])
  ultimately show ?thesis by blast
qed

lemma loop_agree:
  assumes "bookkeeping_free lv"
      and "\<forall>e\<in>set es. (P e \<longleftrightarrow> e mod 10 = 0 \<or> e = fin2) \<and> (P e \<longrightarrow> e mod 10 = 0 \<or> e = fin1)"
      and "agree P st st'"
      and "train_loop T lv tfs fin1 exact es st = (None, st1)"
  shows "\<exists>st1'. train_loop T lv tfs fin2 exact es st' = (None, st1') \<and> agree P st1 st1'"
  using assms(2-4)
proof (induction es arbitrary: st st')
  case Nil
  then show ?case by simp
next
  case (Cons e es)
  from Cons.prems(3) obtain sm where
    m: "train_epoch T lv tfs fin1 exact e st = (None, sm)" and r: "train_loop T lv tfs fin1 exact es sm = (None, st1)"
    by (auto split: prod.splits option.splits)
  have pe: "P e \<longleftrightarrow> e mod 10 = 0 \<or> e = fin2" "P e \<longrightarrow> e mod 10 = 0 \<or> e = fin1"
    and rest: "\<forall>e\<in>set es. (P e \<longleftrightarrow> e mod 10 = 0 \<or> e = fin2) \<and> (P e \<longrightarrow> e mod 10 = 0 \<or> e = fin1)"
    using Cons.prems(1) by simp_all
  from epoch_agree[OF assms(1) Cons.prems(2) m pe] obtain sm' where
    m': "train_epoch T lv tfs fin2 exact e st' = (None, sm')" and a: "agree P sm sm'"
    by blast
  from Cons.IH[OF rest a r] obtain st1' where
    "train_loop T lv tfs fin2 exact es sm' = (None, st1')" "agree P st1 st1'" by blast
  then show ?case using m' by simp
qed

lemma train_loop_append:
  assumes "train_loop T lv tfs fin exact es st = (None, sm)"
      and "train_loop T lv tfs fin exact es' sm = r"
  shows "train_loop T lv tfs fin exact (es @ es') st = r"
  using assms
proof (induction es arbitrary: st)
  case Nil then show ?case by simp
next
  case (Cons e es)
  then show ?case by (auto split: prod.splits option.splits)
qed

lemma loop_iterates:
  assumes bf: "bookkeeping_free lv"
      and "train_loop T lv tfs fin exact es (s, opt, Some sc) = (None, s1, o1, sch1)"
  shows "\<exists>sc1. sch1 = Some sc1
           \<and> (vp_lins s1, o1, sc1) = (optimization_step T lv tfs s ^^ length es) (vp_lins s, opt, sc)
           \<and> vp_epoch s1 = vp_epoch s + int (length es)
           \<and> problem s1 = problem s
           \<and> (vp_history_errors s1 = None \<longleftrightarrow> vp_history_errors s = None)"
  using assms(2)
proof (induction es arbitrary: s opt sc)
  case Nil
  then show ?case by simp
next
  case (Cons e es)
  from Cons.prems obtain sm where
    m: "train_epoch T lv tfs fin exact e (s, opt, Some sc) = (None, sm)"
    and r: "train_loop T lv tfs fin exact es sm = (None, s1, o1, sch1)"
    by (auto split: prod.splits option.splits)
  from m obtain v sa where
    snap: "(if e mod 10 = 0 \<or> e = fin then snapshot T s (Tensor v) exact e else (None, s)) = (None, sa)"
    and sm: "sm = finish_epoch T lv tfs sa opt sc"
    by (rule train_epoch_elim) auto
  have a: "vp_lins sa = vp_lins s \<and> problem sa = problem s \<and> vp_epoch sa = vp_epoch s
           \<and> (vp_history_errors sa = None \<longleftrightarrow> vp_history_errors s = None)"
  proof (cases "e mod 10 = 0 \<or> e = fin")
    case True
    then have "snapshot T s (Tensor v) exact e = (None, sa)" using snap by simp
    from snapshot_ok[OF this] show ?thesis by simp
  next
    case False
    then show ?thesis using snap by simp
  qed
  define c where "c = optimization_step T lv tfs s (vp_lins s, opt, sc)"
  have oa: "optimization_step T lv tfs sa = optimization_step T lv tfs s"
    by (rule optimization_step_cong[OF bf]) (use a in simp)
  define sn where "sn = sa\<lparr>vp_lins := fst c, vp_epoch := vp_epoch sa + 1\<rparr>"
  have la: "vp_lins sa = vp_lins s" using a by blast
  have sm': "sm = (sn, fst (snd c), Some (snd (snd c)))"
    unfolding sm finish_epoch_def Let_def oa la sn_def c_def ..
  have pn: "problem sn = problem s" using a by (simp add: sn_def problem_def)
  from Cons.IH[OF r[unfolded sm']] obtain sc1 where X: "sch1 = Some sc1
           \<and> (vp_lins s1, o1, sc1) = (optimization_step T lv tfs sn ^^ length es) (vp_lins sn, fst (snd c), snd (snd c))
           \<and> vp_epoch s1 = vp_epoch sn + int (length es)
           \<and> problem s1 = problem sn
           \<and> (vp_history_errors s1 = None \<longleftrightarrow> vp_history_errors sn = None)" ..
  note sc1 = X[THEN conjunct1]
    and it = X[THEN conjunct2, THEN conjunct1]
    and ep = X[THEN conjunct2, THEN conjunct2, THEN conjunct1]
    and pr = X[THEN conjunct2, THEN conjunct2, THEN conjunct2, THEN conjunct1]
    and nn = X[THEN conjunct2, THEN conjunct2, THEN conjunct2, THEN conjunct2]
  have on: "optimization_step T lv tfs sn = optimization_step T lv tfs s"
    by (rule optimization_step_cong[OF bf pn])
  have cc: "(vp_lins sn, fst (snd c), snd (snd c)) = c" by (simp add: sn_def)
  have fp: "(optimization_step T lv tfs s ^^ length (e # es)) (vp_lins s, opt, sc)
            = (optimization_step T lv tfs s ^^ length es) c"
    unfolding length_Cons funpow_Suc_right o_apply c_def ..
  have r1: "(vp_lins s1, o1, sc1) = (optimization_step T lv tfs s ^^ length (e # es)) (vp_lins s, opt, sc)"
    unfolding fp using it unfolding on cc .
  have r2: "vp_epoch s1 = vp_epoch s + int (length (e # es))"
    using ep a by (simp add: sn_def)
  have r3: "vp_history_errors s1 = None \<longleftrightarrow> vp_history_errors s = None"
    using nn a by (simp add: sn_def)
  have r4: "problem s1 = problem s" using pr pn by simp
  show ?case
    by (intro exI[of _ sc1] conjI) (rule sc1 r1 r2 r3 r4)+
qed



lemma begin_training_facts:
  "vp_lins (begin_training s exact) = vp_lins s"
  "problem (begin_training s exact) = problem s"
  "vp_epoch (begin_training s exact) = vp_epoch s"
  "vp_history_epochs (begin_training s exact) = vp_history_epochs s"
  "vp_history_losses (begin_training s exact) = vp_history_losses s"
  "exact \<noteq> None \<Longrightarrow> vp_history_errors (begin_training s exact) \<noteq> None"
  "exact = None \<Longrightarrow> vp_history_errors (begin_training s exact) = vp_history_errors s"
  "vp_history_errors s \<noteq> None \<Longrightarrow> vp_history_errors (begin_training s exact) = vp_history_errors s"
  by (auto simp: begin_training_def Let_def problem_def)

lemma give_quadpoints_cong:
  "problem s = problem s' \<Longrightarrow> give_quadpoints T s tfs = give_quadpoints T s' tfs"
  by (auto simp: give_quadpoints_def problem_def split: option.splits)

lemma vp_train_fresh:
  assumes "vp_epoch s = 0"
  shows "vp_train T lv s tfs0 E opt sch exact
         = train_loop T lv (give_quadpoints T s tfs0) E exact [0..E] (begin_training s exact, opt, sch)"
  unfolding vp_train_def Let_def begin_training_facts(3) assms
    give_quadpoints_cong[OF begin_training_facts(2)] by simp

lemma vp_train_resumed:
  assumes "vp_epoch s \<noteq> 0"
  shows "vp_train T lv s tfs0 E opt sch exact
         = train_loop T lv (give_quadpoints T s tfs0) (E + (vp_epoch s - 1)) exact
             [vp_epoch s..E + (vp_epoch s - 1)] (begin_training s exact, opt, sch)"
  unfolding vp_train_def Let_def begin_training_facts(3)
    give_quadpoints_cong[OF begin_training_facts(2)] using assms by simp

text \<open>The two calls on the demo instance, evaluated.\<close>

lemma demo_first_call_value:
  "demo_first_call =
     (None, demo_vpinn\<lparr>vp_history_epochs := [0, 1], vp_history_losses := [4, 9 / 16],
                        vp_epoch := 2, vp_lins := 1 / 4\<rparr>, 2, Some 2)"
  by (simp add: demo_first_call_def vp_train_def begin_training_def give_quadpoints_def upto_rec1
        train_epoch_def epoch_loss_def snapshot_def loss_v_def vp_intg_def getitem_def andthen_def
        Let_def tsum_product_def u_re_def u_im_def u_x_re_def u_x_im_def deriv_def autograd_grad_def
        demo_torch_def
        demo_testfunction_def demo_vpinn_def power2_eq_square)

lemma demo_second_call_value:
  "demo_second_call =
     (None, demo_vpinn\<lparr>vp_history_epochs := [0, 1, 2],
                        vp_history_losses := [4, 9 / 16, 1 / 64],
                        vp_epoch := 3, vp_lins := 1 / 8\<rparr>, 3, Some 3)"
  unfolding demo_second_call_def demo_first_call_value
  by (simp add: vp_train_def begin_training_def give_quadpoints_def upto_rec1
        train_epoch_def epoch_loss_def snapshot_def loss_v_def vp_intg_def getitem_def andthen_def
        Let_def tsum_product_def u_re_def u_im_def u_x_re_def u_x_im_def deriv_def autograd_grad_def
        demo_torch_def
        demo_testfunction_def demo_vpinn_def power2_eq_square)

text \<open>
  C1, as amended. On a solver with a fresh epoch counter and an empty history, when the
  two calls of \<^verbatim>\<open>train_\<close> with \<^verbatim>\<open>epochs=E1\<close> and then \<^verbatim>\<open>epochs=E2\<close> run through, the epoch
  counter is \<open>E1 + 1\<close> after the first and \<open>E1 + E2 + 1\<close> after the second call: the
  first call runs the epochs \<open>0, \<dots>, E1\<close>, that is \<open>E1 + 1\<close> optimization steps, and the
  second runs \<open>E2\<close> more. A single call with \<^verbatim>\<open>epochs=E1+E2\<close> then runs through as well
  and ends with the same parameters, optimizer, scheduler and epoch counter; its
  recorded history is that of the two calls restricted to the epochs that are
  multiples of ten or the last one (the two calls also sample epoch \<open>E1\<close>).
\<close>

theorem train_twice:
  assumes fresh: "vp_epoch s = 0" "vp_history_epochs s = []" "vp_history_losses s = []"
      and bf: "bookkeeping_free lv"
      and E: "0 \<le> E1" "0 \<le> E2"
      and run1: "vp_train T lv s tfs0 E1 opt (Some sc) exact = (None, s1, o1, sch1)"
      and run2: "vp_train T lv s1 tfs0 E2 o1 sch1 exact = (None, s2, o2, sch2)"
  shows "vp_epoch s1 = E1 + 1 \<and> vp_epoch s2 = E1 + E2 + 1
       \<and> (\<exists>c1 c2. sch1 = Some c1 \<and> sch2 = Some c2
             \<and> (vp_lins s1, o1, c1)
                 = (optimization_step T lv (give_quadpoints T s tfs0) s ^^ nat (E1 + 1))
                     (vp_lins s, opt, sc)
             \<and> (vp_lins s2, o2, c2)
                 = (optimization_step T lv (give_quadpoints T s tfs0) s ^^ nat E2)
                     (vp_lins s1, o1, c1))
       \<and> (\<exists>s3. vp_train T lv s tfs0 (E1 + E2) opt (Some sc) exact = (None, s3, o2, sch2)
             \<and> vp_lins s3 = vp_lins s2 \<and> vp_epoch s3 = vp_epoch s2
             \<and> history s3 = filter (\<lambda>el. fst el mod 10 = 0 \<or> fst el = E1 + E2) (history s2))"
proof -
  define tfs where "tfs = give_quadpoints T s tfs0"
  define P where "P e \<longleftrightarrow> e mod 10 = 0 \<or> e = E1 + E2" for e :: int
  define A where "A = (begin_training s exact, opt, Some sc)"
  \<comment> \<open>the first call\<close>
  have l1: "train_loop T lv tfs E1 exact [0..E1] A = (None, s1, o1, sch1)"
    using run1 unfolding vp_train_fresh[OF fresh(1)] tfs_def A_def .
  from loop_iterates[OF bf l1[unfolded A_def]] obtain c1 where X1: "sch1 = Some c1
           \<and> (vp_lins s1, o1, c1) = (optimization_step T lv tfs (begin_training s exact) ^^ length [0..E1])
                 (vp_lins (begin_training s exact), opt, sc)
           \<and> vp_epoch s1 = vp_epoch (begin_training s exact) + int (length [0..E1])
           \<and> problem s1 = problem (begin_training s exact)
           \<and> (vp_history_errors s1 = None \<longleftrightarrow> vp_history_errors (begin_training s exact) = None)" ..
  note c1 = X1[THEN conjunct1]
    and it1 = X1[THEN conjunct2, THEN conjunct1]
    and ep1 = X1[THEN conjunct2, THEN conjunct2, THEN conjunct1]
    and pr1 = X1[THEN conjunct2, THEN conjunct2, THEN conjunct2, THEN conjunct1]
    and nn1 = X1[THEN conjunct2, THEN conjunct2, THEN conjunct2, THEN conjunct2]
  have len1: "length [0..E1] = nat (E1 + 1)" by simp
  have e1: "vp_epoch s1 = E1 + 1"
    using ep1 E(1) unfolding begin_training_facts(3) fresh(1) len1 by simp
  have p1: "problem s1 = problem s" using pr1 unfolding begin_training_facts(2) .
  have ob: "optimization_step T lv tfs (begin_training s exact) = optimization_step T lv tfs s"
    by (rule optimization_step_cong[OF bf begin_training_facts(2)])
  have i1: "(vp_lins s1, o1, c1) = (optimization_step T lv tfs s ^^ nat (E1 + 1)) (vp_lins s, opt, sc)"
    using it1 unfolding ob begin_training_facts(1) len1 .
  \<comment> \<open>the second call\<close>
  have ne: "vp_epoch s1 \<noteq> 0" using e1 E(1) by simp
  have fin2: "E2 + (vp_epoch s1 - 1) = E1 + E2" using e1 by simp
  have tfs1: "give_quadpoints T s1 tfs0 = tfs" unfolding tfs_def by (rule give_quadpoints_cong[OF p1])
  have l2: "train_loop T lv tfs (E1 + E2) exact [E1 + 1..E1 + E2] (begin_training s1 exact, o1, Some c1)
            = (None, s2, o2, sch2)"
    using run2 unfolding vp_train_resumed[OF ne] unfolding fin2 tfs1 unfolding e1 c1 .
  from loop_iterates[OF bf l2] obtain c2 where X2: "sch2 = Some c2
           \<and> (vp_lins s2, o2, c2) = (optimization_step T lv tfs (begin_training s1 exact) ^^ length [E1 + 1..E1 + E2])
                 (vp_lins (begin_training s1 exact), o1, c1)
           \<and> vp_epoch s2 = vp_epoch (begin_training s1 exact) + int (length [E1 + 1..E1 + E2])
           \<and> problem s2 = problem (begin_training s1 exact)
           \<and> (vp_history_errors s2 = None \<longleftrightarrow> vp_history_errors (begin_training s1 exact) = None)" ..
  note c2 = X2[THEN conjunct1]
    and it2 = X2[THEN conjunct2, THEN conjunct1]
    and ep2 = X2[THEN conjunct2, THEN conjunct2, THEN conjunct1]
  have len2: "length [E1 + 1..E1 + E2] = nat E2" by simp
  have e2: "vp_epoch s2 = E1 + E2 + 1"
    using ep2 E(2) unfolding begin_training_facts(3) e1 len2 by simp
  have ob1: "optimization_step T lv tfs (begin_training s1 exact) = optimization_step T lv tfs s"
    by (rule optimization_step_cong[OF bf]) (simp add: begin_training_facts(2) p1)
  have i2: "(vp_lins s2, o2, c2) = (optimization_step T lv tfs s ^^ nat E2) (vp_lins s1, o1, c1)"
    using it2 unfolding ob1 begin_training_facts(1) len2 .
  \<comment> \<open>the single call, first segment\<close>
  have AA: "agree P A A"
    unfolding agree_def A_def history_def by (simp add: begin_training_facts fresh)
  have c1ok: "\<forall>e\<in>set [0..E1]. (P e \<longleftrightarrow> e mod 10 = 0 \<or> e = E1 + E2) \<and> (P e \<longrightarrow> e mod 10 = 0 \<or> e = E1)"
    using E unfolding P_def by auto
  from loop_agree[OF bf c1ok AA l1] obtain B where
    lB: "train_loop T lv tfs (E1 + E2) exact [0..E1] A = (None, B)" and aB: "agree P (s1, o1, sch1) B"
    by blast
  \<comment> \<open>the single call, second segment\<close>
  have bt: "begin_training s1 exact = s1\<lparr>vp_training := True\<rparr>"
  proof (cases "exact = None")
    case True then show ?thesis by (simp add: begin_training_def)
  next
    case False
    then have "vp_history_errors s1 \<noteq> None" using nn1 begin_training_facts(6)[OF False, of s] by simp
    then show ?thesis by (simp add: begin_training_def)
  qed
  have aB2: "agree P (begin_training s1 exact, o1, Some c1) B"
    using aB unfolding bt agree_def c1 history_def by (simp add: problem_def)
  have c2ok: "\<forall>e\<in>set [E1 + 1..E1 + E2]. (P e \<longleftrightarrow> e mod 10 = 0 \<or> e = E1 + E2)
                \<and> (P e \<longrightarrow> e mod 10 = 0 \<or> e = E1 + E2)"
    unfolding P_def by simp
  from loop_agree[OF bf c2ok aB2 l2] obtain C where
    lC: "train_loop T lv tfs (E1 + E2) exact [E1 + 1..E1 + E2] B = (None, C)"
    and aC: "agree P (s2, o2, sch2) C"
    by blast
  have split: "[0..E1 + E2] = [0..E1] @ [E1 + 1..E1 + E2]"
    by (rule upto_split2) (use E in simp_all)
  have single: "vp_train T lv s tfs0 (E1 + E2) opt (Some sc) exact = (None, C)"
    unfolding vp_train_fresh[OF fresh(1)] tfs_def[symmetric] A_def[symmetric] split
    by (rule train_loop_append[OF lB lC])
  obtain s3 where C: "C = (s3, o2, sch2)" using aC by (cases C) (auto simp: agree_def)
  have f3: "vp_lins s3 = vp_lins s2" "vp_epoch s3 = vp_epoch s2"
    "history s3 = filter (\<lambda>el. P (fst el)) (history s2)"
    using aC unfolding C agree_def by simp_all
  have r3: "\<exists>s3. vp_train T lv s tfs0 (E1 + E2) opt (Some sc) exact = (None, s3, o2, sch2)
             \<and> vp_lins s3 = vp_lins s2 \<and> vp_epoch s3 = vp_epoch s2
             \<and> history s3 = filter (\<lambda>el. fst el mod 10 = 0 \<or> fst el = E1 + E2) (history s2)"
    by (intro exI[of _ s3] conjI) (use single C f3 in \<open>simp_all add: P_def\<close>)
  have r2: "\<exists>c1 c2. sch1 = Some c1 \<and> sch2 = Some c2
             \<and> (vp_lins s1, o1, c1)
                 = (optimization_step T lv (give_quadpoints T s tfs0) s ^^ nat (E1 + 1))
                     (vp_lins s, opt, sc)
             \<and> (vp_lins s2, o2, c2)
                 = (optimization_step T lv (give_quadpoints T s tfs0) s ^^ nat E2)
                     (vp_lins s1, o1, c1)"
    by (intro exI[of _ c1] exI[of _ c2] conjI) (rule c1 c2 i1[unfolded tfs_def] i2[unfolded tfs_def])+
  show ?thesis by (intro conjI) (rule e1 e2 r2 r3)+
qed



theorem train_twice_witness:
  "vp_epoch (fst (snd demo_first_call)) = 1 + 1
   \<and> vp_epoch (fst (snd demo_second_call)) = 1 + 1 + 1
   \<and> fst (snd (snd demo_first_call)) = 2
   \<and> (\<exists>s3. vp_train demo_torch (loss_v demo_torch) demo_vpinn [demo_testfunction] (1 + 1) 0
               (Some 0) None = (None, s3, 3, Some 3)
          \<and> vp_lins s3 = 1 / 8 \<and> vp_epoch s3 = 3
          \<and> history s3 = [(0, 4), (2, 1 / 64)])"
proof -
  let ?s1 = "demo_vpinn\<lparr>vp_history_epochs := [0, 1], vp_history_losses := [4, 9 / 16],
                        vp_epoch := 2, vp_lins := 1 / 4\<rparr>"
  let ?s2 = "demo_vpinn\<lparr>vp_history_epochs := [0, 1, 2],
                        vp_history_losses := [4, 9 / 16, 1 / 64],
                        vp_epoch := 3, vp_lins := 1 / 8\<rparr>"
  have run1: "vp_train demo_torch (loss_v demo_torch) demo_vpinn [demo_testfunction] 1 0 (Some 0) None
              = (None, ?s1, 2, Some 2)"
    using demo_first_call_value unfolding demo_first_call_def .
  have run2: "vp_train demo_torch (loss_v demo_torch) ?s1 [demo_testfunction] 1 2 (Some 2) None
              = (None, ?s2, 3, Some 3)"
    using demo_second_call_value unfolding demo_second_call_def demo_first_call_value by simp
  have fresh: "vp_epoch demo_vpinn = 0" "vp_history_epochs demo_vpinn = []"
    "vp_history_losses demo_vpinn = []"
    by (simp_all add: demo_vpinn_def)
  note t = train_twice[OF fresh loss_v_bookkeeping_free _ _ run1 run2]
  have e: "vp_epoch ?s1 = 1 + 1" "vp_epoch ?s2 = 1 + 1 + 1"
    using t by simp_all
  from t obtain s3 where
    s3: "vp_train demo_torch (loss_v demo_torch) demo_vpinn [demo_testfunction] (1 + 1) 0
           (Some 0) None = (None, s3, 3, Some 3)"
    and l: "vp_lins s3 = vp_lins ?s2" and p: "vp_epoch s3 = vp_epoch ?s2"
    and h: "history s3 = filter (\<lambda>el. fst el mod 10 = 0 \<or> fst el = 1 + 1) (history ?s2)"
    by auto
  have h2: "history s3 = [(0, 4), (2, 1 / 64)]"
    unfolding h by (simp add: history_def)
  have "\<exists>s3. vp_train demo_torch (loss_v demo_torch) demo_vpinn [demo_testfunction] (1 + 1) 0
               (Some 0) None = (None, s3, 3, Some 3)
          \<and> vp_lins s3 = 1 / 8 \<and> vp_epoch s3 = 3
          \<and> history s3 = [(0, 4), (2, 1 / 64)]"
    using s3 l p h2 by auto
  then show ?thesis using e by (simp add: demo_first_call_value demo_second_call_value)
qed

text \<open>
  C1 as stated fails: after \<^verbatim>\<open>train_\<close> with \<^verbatim>\<open>epochs=1\<close> on the fresh demo instance the
  epoch counter is 2 and the optimizer has taken 2 steps, and after a second call with
  \<^verbatim>\<open>epochs=1\<close> the counter is 3, not \<open>1 + 1\<close>.
\<close>

theorem train_twice_counterexample:
  "fst demo_first_call = None \<and> fst demo_second_call = None
   \<and> vp_epoch (fst (snd demo_first_call)) = 2
   \<and> fst (snd (snd demo_first_call)) = 2
   \<and> vp_epoch (fst (snd demo_second_call)) = 3
   \<and> vp_epoch (fst (snd demo_second_call)) \<noteq> 1 + 1"
  by (simp add: demo_first_call_value demo_second_call_value)








end
